theory Spec2Isabelle
  imports Complex_Main
begin

section \<open>Outcomes analytics of the recovery tracker (src/lib/analytics.ts)\<close>

text \<open>
  The analytics module turns a patient's series of ODI assessments and of VAS pain
  scores into five progress signals and offers a population benchmark lookup.

  Conventions of the embedding.
  \<^item> A date field (\<open>assessment_date\<close>, \<open>recorded_date\<close>) holds the number that
    \<open>new Date(field).getTime()\<close> yields: milliseconds since the epoch, an \<open>int\<close>.
    Both columns have the SQL type \<open>date\<close>, whose values parse to UTC midnight;
    \<open>calendar_date\<close> below says so where a property needs it.
  \<^item> A JavaScript \<open>number\<close> is a double: a value of the type \<open>number\<close>, which is a
    finite real, an infinity or \<open>NaN\<close>. Every operation on scores rounds its exact
    result to the nearest double, ties to even, as \<open>round_double\<close> defines it, with
    overflow to an infinity and gradual underflow. The sign of zero is not modelled:
    no result of this module depends on it.
  \<^item> A score field (\<open>percentage_score\<close>, \<open>pain_score\<close>) holds the finite double
    that the field was read as; \<open>is_double\<close> characterises these reals.
  \<^item> Times are integers of magnitude at most 8.64e15, the range of \<open>Date\<close>. The
    arithmetic on times that only decides a comparison or feeds \<open>Math.ceil\<close> or
    \<open>Math.floor\<close> is written with exact integers and reals; the elapsed weeks of the
    trajectory slope, whose value enters the result, are rounded as the source
    rounds them.
  \<^item> \<open>null\<close> is \<open>None\<close>; a rejected promise or a \<open>throw\<close> is \<open>Inl\<close> of the error.
  \<^item> \<open>console.error\<close> output is not part of the model.
\<close>

subsection \<open>Data model\<close>

record ODIAssessment =
  id :: string
  assessment_date :: int
  percentage_score :: real
  is_baseline :: "bool option"

record VASScore =
  recorded_date :: int
  pain_score :: real

datatype number = Fin real | PosInfinity | NegInfinity | NaN

record AnalyticsResult =
  timeToMCID :: "int option"
  trajectorySlope :: "number option"
  painFunctionCorrelation :: "number option"
  weeksSinceBaseline :: int
  plateauDetected :: bool

definition ODI_MCID_THRESHOLD :: real where
  "ODI_MCID_THRESHOLD = 10"

text \<open>One day, \<open>1000 * 60 * 60 * 24\<close> milliseconds.\<close>

definition ms_per_day :: int where
  "ms_per_day = 1000 * 60 * 60 * 24"

definition calendar_date :: "int \<Rightarrow> bool" where
  "calendar_date t \<longleftrightarrow> t mod ms_per_day = 0"

text \<open>\<open>a.is_baseline\<close> used as a condition: an absent, null or false flag is falsy.\<close>

definition truthy :: "bool option \<Rightarrow> bool" where
  "truthy b = (case b of Some True \<Rightarrow> True | _ \<Rightarrow> False)"

text \<open>
  \<open>assessments.find(a => a.is_baseline) || assessments[0]\<close>. Every caller has checked
  that the series is not empty; on an empty series \<open>assessments[0]\<close> is \<open>undefined\<close>,
  which is \<open>None\<close> here.
\<close>

definition find_baseline :: "ODIAssessment list \<Rightarrow> ODIAssessment option" where
  "find_baseline assessments =
     (case find (\<lambda>a. truthy (is_baseline a)) assessments of
        Some b \<Rightarrow> Some b
      | None \<Rightarrow> (case assessments of [] \<Rightarrow> None | a # _ \<Rightarrow> Some a))"

subsection \<open>Doubles\<close>

text \<open>
  The binade of a real \<open>x\<close>: the exponent \<open>e\<close> with \<open>2\<^sup>e \<le> \<bar>x\<bar> < 2\<^sup>e\<^sup>+\<^sup>1\<close>, searched upwards
  from the least exponent of a normal double, -1022, which is also the exponent of all
  subnormal numbers, and stopping at the greatest one, 1023.
\<close>

fun binade_from :: "nat \<Rightarrow> int \<Rightarrow> real \<Rightarrow> int" where
  "binade_from 0 e x = e"
| "binade_from (Suc k) e x = (if x < 2 powi (e + 1) then e else binade_from k (e + 1) x)"

definition binade :: "real \<Rightarrow> int" where
  "binade x = binade_from 2045 (- 1022) \<bar>x\<bar>"

text \<open>Rounding to the nearest integer, a tie to the even one.\<close>

definition round_half_even :: "real \<Rightarrow> int" where
  "round_half_even r =
     (let f = \<lfloor>r\<rfloor>; d = r - of_int f in
      if d < 1 / 2 then f else if d > 1 / 2 then f + 1 else if even f then f else f + 1)"

definition double_limit :: real where
  "double_limit = 2 powi 1024"

text \<open>
  A double has 53 significant bits: in the binade \<open>e\<close> the doubles are the multiples of
  \<open>2\<^sup>e\<^sup>-\<^sup>5\<^sup>2\<close>. \<open>rounded x\<close> is the multiple nearest to \<open>x\<close>; a result that reaches
  \<open>2\<^sup>1\<^sup>0\<^sup>2\<^sup>4\<close> overflows.
\<close>

definition rounded :: "real \<Rightarrow> real" where
  "rounded x = of_int (round_half_even (x / 2 powi (binade x - 52))) * 2 powi (binade x - 52)"

definition round_double :: "real \<Rightarrow> number" where
  "round_double x =
     (if \<bar>rounded x\<bar> \<ge> double_limit then (if x > 0 then PosInfinity else NegInfinity)
      else Fin (rounded x))"

text \<open>The finite doubles.\<close>

definition is_double :: "real \<Rightarrow> bool" where
  "is_double c \<longleftrightarrow>
     (\<exists>m j. c = of_int m * 2 powi j \<and> \<bar>m\<bar> \<le> 2 ^ 53 \<and> - 1074 \<le> j) \<and> \<bar>c\<bar> < double_limit"

text \<open>A number is at least, or at most, a real: \<open>NaN\<close> is neither.\<close>

fun at_least :: "number \<Rightarrow> real \<Rightarrow> bool" where
  "at_least (Fin r) c \<longleftrightarrow> c \<le> r"
| "at_least PosInfinity c \<longleftrightarrow> True"
| "at_least _ c \<longleftrightarrow> False"

fun at_most :: "number \<Rightarrow> real \<Rightarrow> bool" where
  "at_most (Fin r) c \<longleftrightarrow> r \<le> c"
| "at_most NegInfinity c \<longleftrightarrow> True"
| "at_most _ c \<longleftrightarrow> False"

subsection \<open>The operations of JavaScript on numbers\<close>

text \<open>
  \<open>a + b\<close>, \<open>a - b\<close>, \<open>a * b\<close>, \<open>a / b\<close>, \<open>Math.sqrt\<close>, \<open>Math.abs\<close>, \<open>a < b\<close> and
  \<open>a >= b\<close>. A zero divisor in this module is the difference of two equal
  numbers or the root of a zero product: the sign of a quotient by zero is the sign of
  the dividend.
\<close>

fun js_neg :: "number \<Rightarrow> number" where
  "js_neg (Fin a) = Fin (- a)"
| "js_neg PosInfinity = NegInfinity"
| "js_neg NegInfinity = PosInfinity"
| "js_neg NaN = NaN"

fun js_plus :: "number \<Rightarrow> number \<Rightarrow> number" where
  "js_plus (Fin a) (Fin b) = round_double (a + b)"
| "js_plus NaN _ = NaN"
| "js_plus _ NaN = NaN"
| "js_plus PosInfinity NegInfinity = NaN"
| "js_plus NegInfinity PosInfinity = NaN"
| "js_plus PosInfinity _ = PosInfinity"
| "js_plus _ PosInfinity = PosInfinity"
| "js_plus NegInfinity _ = NegInfinity"
| "js_plus _ NegInfinity = NegInfinity"

fun js_minus :: "number \<Rightarrow> number \<Rightarrow> number" where
  "js_minus (Fin a) (Fin b) = round_double (a - b)"
| "js_minus a b = js_plus a (js_neg b)"

fun js_times :: "number \<Rightarrow> number \<Rightarrow> number" where
  "js_times (Fin a) (Fin b) = round_double (a * b)"
| "js_times NaN _ = NaN"
| "js_times _ NaN = NaN"
| "js_times (Fin a) PosInfinity =
     (if a > 0 then PosInfinity else if a < 0 then NegInfinity else NaN)"
| "js_times (Fin a) NegInfinity =
     (if a > 0 then NegInfinity else if a < 0 then PosInfinity else NaN)"
| "js_times PosInfinity (Fin b) =
     (if b > 0 then PosInfinity else if b < 0 then NegInfinity else NaN)"
| "js_times NegInfinity (Fin b) =
     (if b > 0 then NegInfinity else if b < 0 then PosInfinity else NaN)"
| "js_times PosInfinity PosInfinity = PosInfinity"
| "js_times NegInfinity NegInfinity = PosInfinity"
| "js_times _ _ = NegInfinity"

fun js_divide :: "number \<Rightarrow> number \<Rightarrow> number" where
  "js_divide (Fin a) (Fin b) =
     (if b \<noteq> 0 then round_double (a / b)
      else if a > 0 then PosInfinity
      else if a < 0 then NegInfinity
      else NaN)"
| "js_divide NaN _ = NaN"
| "js_divide _ NaN = NaN"
| "js_divide (Fin a) _ = Fin 0"
| "js_divide PosInfinity (Fin b) = (if b < 0 then NegInfinity else PosInfinity)"
| "js_divide NegInfinity (Fin b) = (if b < 0 then PosInfinity else NegInfinity)"
| "js_divide _ _ = NaN"

fun Math_sqrt :: "number \<Rightarrow> number" where
  "Math_sqrt (Fin x) = (if x < 0 then NaN else round_double (sqrt x))"
| "Math_sqrt PosInfinity = PosInfinity"
| "Math_sqrt _ = NaN"

fun Math_abs :: "number \<Rightarrow> number" where
  "Math_abs (Fin x) = Fin \<bar>x\<bar>"
| "Math_abs NaN = NaN"
| "Math_abs _ = PosInfinity"

fun js_less :: "number \<Rightarrow> number \<Rightarrow> bool" where
  "js_less (Fin a) (Fin b) \<longleftrightarrow> a < b"
| "js_less NaN _ \<longleftrightarrow> False"
| "js_less _ NaN \<longleftrightarrow> False"
| "js_less PosInfinity _ \<longleftrightarrow> False"
| "js_less _ NegInfinity \<longleftrightarrow> False"
| "js_less _ _ \<longleftrightarrow> True"

fun js_ge :: "number \<Rightarrow> number \<Rightarrow> bool" where
  "js_ge (Fin a) (Fin b) \<longleftrightarrow> a \<ge> b"
| "js_ge NaN _ \<longleftrightarrow> False"
| "js_ge _ NaN \<longleftrightarrow> False"
| "js_ge PosInfinity _ \<longleftrightarrow> True"
| "js_ge _ NegInfinity \<longleftrightarrow> True"
| "js_ge _ _ \<longleftrightarrow> False"

subsection \<open>Time to the minimal clinically important difference\<close>

text \<open>
  The \<open>for ... of\<close> loop of \<open>calculateTimeToMCID\<close>, with its early return.
\<close>

fun mcid_scan :: "ODIAssessment \<Rightarrow> ODIAssessment list \<Rightarrow> int option" where
  "mcid_scan baseline [] = None"
| "mcid_scan baseline (assessment # rest) =
     (let baselineScore = Fin (percentage_score baseline);
          improvement = js_minus baselineScore (Fin (percentage_score assessment)) in
      if js_ge improvement (Fin ODI_MCID_THRESHOLD) then
        (let baselineDate = assessment_date baseline;
             achievementDate = assessment_date assessment;
             diffTime = achievementDate - baselineDate;
             diffDays = \<lceil>real_of_int diffTime / (1000 * 60 * 60 * 24)\<rceil>
         in Some diffDays)
      else mcid_scan baseline rest)"

definition calculateTimeToMCID :: "ODIAssessment list \<Rightarrow> int option" where
  "calculateTimeToMCID assessments =
     (if length assessments < 2 then None
      else case find_baseline assessments of
             None \<Rightarrow> None
           | Some baseline \<Rightarrow> mcid_scan baseline assessments)"

text \<open>
  The words of the specification: the baseline is the flagged record, or the first
  (earliest) record of the date-ascending series; a record reaches the threshold when
  \<open>baselineScore - currentScore \<ge> 10\<close>, the difference being the double that the
  subtraction yields; the day count is the ceiling of the difference of the two dates
  in days.
\<close>

definition spec_baseline :: "ODIAssessment list \<Rightarrow> ODIAssessment" where
  "spec_baseline xs =
     (case find (\<lambda>a. is_baseline a = Some True) xs of
        Some flagged \<Rightarrow> flagged
      | None \<Rightarrow> hd xs)"

definition reaches_mcid :: "ODIAssessment \<Rightarrow> ODIAssessment \<Rightarrow> bool" where
  "reaches_mcid b a \<longleftrightarrow>
     js_ge (js_minus (Fin (percentage_score b)) (Fin (percentage_score a))) (Fin 10)"

definition days_between :: "ODIAssessment \<Rightarrow> ODIAssessment \<Rightarrow> int" where
  "days_between b a = \<lceil>real_of_int (assessment_date a - assessment_date b) / 86400000\<rceil>"

subsection \<open>Trajectory slope\<close>

text \<open>\<open>xs.slice(-k)\<close>: the last \<open>k\<close> elements, all of them when there are fewer.\<close>

definition slice_last :: "nat \<Rightarrow> 'a list \<Rightarrow> 'a list" where
  "slice_last k xs = drop (length xs - k) xs"

text \<open>
  The \<open>forEach((assessment, index) => ...)\<close> of \<open>calculateTrajectorySlope\<close>: the four
  running sums \<open>(sumX, sumY, sumXY, sumXX)\<close>.
\<close>

fun slope_sums ::
  "nat \<Rightarrow> ODIAssessment list \<Rightarrow> number \<times> number \<times> number \<times> number \<Rightarrow>
     number \<times> number \<times> number \<times> number" where
  "slope_sums index [] acc = acc"
| "slope_sums index (assessment # rest) (sumX, sumY, sumXY, sumXX) =
     (let x = Fin (real index);
          y = Fin (percentage_score assessment)
      in slope_sums (Suc index) rest
           (js_plus sumX x, js_plus sumY y, js_plus sumXY (js_times x y),
            js_plus sumXX (js_times x x)))"

definition calculateTrajectorySlope :: "ODIAssessment list \<Rightarrow> number option" where
  "calculateTrajectorySlope assessments =
     (if length assessments < 2 then None
      else
        let recentAssessments = slice_last 4 assessments in
        if length recentAssessments < 2 then None
        else
          let n = length recentAssessments;
              (sumX, sumY, sumXY, sumXX) =
                slope_sums 0 recentAssessments (Fin 0, Fin 0, Fin 0, Fin 0);
              slope = js_divide
                        (js_minus (js_times (Fin (real n)) sumXY) (js_times sumX sumY))
                        (js_minus (js_times (Fin (real n)) sumXX) (js_times sumX sumX));
              firstDate = assessment_date (recentAssessments ! 0);
              lastDate = assessment_date (recentAssessments ! (n - 1));
              daysDiff = js_divide
                           (js_minus (Fin (real_of_int lastDate)) (Fin (real_of_int firstDate)))
                           (Fin (1000 * 60 * 60 * 24));
              weeksDiff = js_divide daysDiff (Fin 7);
              slopePerWeek = js_divide (js_times slope (Fin (real (n - 1)))) weeksDiff
          in Some slopePerWeek)"

subsection \<open>Pain and function correlation\<close>

text \<open>The callback of \<open>vasScores.reduce\<close>: keep the reading closer to \<open>odiDate\<close>.\<close>

definition closer :: "int \<Rightarrow> VASScore \<Rightarrow> VASScore \<Rightarrow> VASScore" where
  "closer odiDate closest vas =
     (let currentDiff = \<bar>recorded_date vas - odiDate\<bar>;
          closestDiff = \<bar>recorded_date closest - odiDate\<bar>
      in if currentDiff < closestDiff then vas else closest)"

text \<open>
  The \<open>for (const odi of odiAssessments)\<close> loop. \<open>reduce\<close> without an initial value
  starts from the first reading \<open>vas0\<close> and runs over the others; a matched pair is
  \<open>(odi, vas)\<close>, pushed at the end of \<open>matchedPairs\<close>. The differences of times
  that decide which reading is closest and whether it lies within 3 days are below
  \<open>2\<^sup>5\<^sup>3\<close> and exact in doubles.
\<close>

fun match_pairs ::
  "ODIAssessment list \<Rightarrow> VASScore \<Rightarrow> VASScore list \<Rightarrow> (number \<times> number) list" where
  "match_pairs [] vas0 others = []"
| "match_pairs (odi # rest) vas0 others =
     (let odiDate = assessment_date odi;
          closestVAS = foldl (closer odiDate) vas0 others;
          vasDate = recorded_date closestVAS;
          daysDiff = \<bar>real_of_int (vasDate - odiDate) / (1000 * 60 * 60 * 24)\<bar>
      in if daysDiff \<le> 3
         then (Fin (percentage_score odi), js_times (Fin (pain_score closestVAS)) (Fin 10))
                # match_pairs rest vas0 others
         else match_pairs rest vas0 others)"

text \<open>The \<open>forEach\<close> over the matched pairs: \<open>(sumX, sumY, sumXY, sumXX, sumYY)\<close>.\<close>

fun correlation_sums ::
  "(number \<times> number) list \<Rightarrow> number \<times> number \<times> number \<times> number \<times> number \<Rightarrow>
     number \<times> number \<times> number \<times> number \<times> number" where
  "correlation_sums [] acc = acc"
| "correlation_sums ((odi, vas) # rest) (sumX, sumY, sumXY, sumXX, sumYY) =
     correlation_sums rest
       (js_plus sumX odi, js_plus sumY vas, js_plus sumXY (js_times odi vas),
        js_plus sumXX (js_times odi odi), js_plus sumYY (js_times vas vas))"

text \<open>
  After the length check \<open>vasScores\<close> has a first element; the branch for an empty
  list is never taken.
\<close>

definition calculatePainFunctionCorrelation ::
  "ODIAssessment list \<Rightarrow> VASScore list \<Rightarrow> number option" where
  "calculatePainFunctionCorrelation odiAssessments vasScores =
     (if length odiAssessments < 3 \<or> length vasScores < 3 then None
      else case vasScores of
        [] \<Rightarrow> None
      | vas0 # others \<Rightarrow>
          let matchedPairs = match_pairs odiAssessments vas0 others in
          if length matchedPairs < 3 then None
          else
            let n = Fin (real (length matchedPairs));
                (sumX, sumY, sumXY, sumXX, sumYY) =
                  correlation_sums matchedPairs (Fin 0, Fin 0, Fin 0, Fin 0, Fin 0);
                numerator = js_minus (js_times n sumXY) (js_times sumX sumY);
                denominator =
                  Math_sqrt (js_times (js_minus (js_times n sumXX) (js_times sumX sumX))
                                      (js_minus (js_times n sumYY) (js_times sumY sumY)))
            in if denominator = Fin 0 then None
               else Some (js_divide numerator denominator))"

subsection \<open>Weeks since baseline\<close>

text \<open>
  \<open>now\<close> is the reading of the clock, \<open>new Date().getTime()\<close>. The difference of the
  two times and its quotient by the week are written exactly; the floor of the exact
  quotient is the floor of the rounded one.
\<close>

definition calculateWeeksSinceBaseline :: "int \<Rightarrow> ODIAssessment list \<Rightarrow> int" where
  "calculateWeeksSinceBaseline now assessments =
     (if length assessments = 0 then 0
      else case find_baseline assessments of
             None \<Rightarrow> 0
           | Some baseline \<Rightarrow>
               let baselineDate = assessment_date baseline;
                   diffTime = now - baselineDate;
                   diffWeeks = \<lfloor>real_of_int diffTime / (1000 * 60 * 60 * 24 * 7)\<rfloor>
               in diffWeeks)"

subsection \<open>Plateau detection\<close>

definition detectPlateau :: "ODIAssessment list \<Rightarrow> bool" where
  "detectPlateau assessments =
     (if length assessments < 4 then False
      else
        let recentAssessments = slice_last 4 assessments;
            changes = map (\<lambda>i. Math_abs
                                  (js_minus (Fin (percentage_score (recentAssessments ! i)))
                                     (Fin (percentage_score (recentAssessments ! (i - 1))))))
                          [1 ..< length recentAssessments];
            allSmallChanges = list_all (\<lambda>change. js_less change (Fin 5)) changes
        in allSmallChanges)"

subsection \<open>The storage collaborator\<close>

text \<open>
  A query on the backend client resolves to \<open>{ data, error }\<close>. The store holds, for
  a patient id, the reply to the two series queries of this module (which ask for the
  patient's rows in ascending date order), the benchmark table with the error its
  query meets, if any, and the table of persisted snapshots, keyed by patient and
  day.
\<close>

datatype PostgrestError = PostgrestError string

record 'a reply =
  data :: "'a option"
  error :: "PostgrestError option"

datatype TreatmentType = post_surgery | conservative | physical_therapy

record BenchmarkRow =
  treatment_type :: TreatmentType
  weeks_post_treatment :: int
  mean_odi_score :: real
  std_dev_odi_score :: real
  percentile_25 :: real
  percentile_50 :: real
  percentile_75 :: real
  sample_size :: int

record store =
  odi_assessments :: "string \<Rightarrow> ODIAssessment list reply"
  vas_pain_scores :: "string \<Rightarrow> VASScore list reply"
  population_benchmarks :: "BenchmarkRow list"
  population_benchmarks_error :: "PostgrestError option"
  analytics_metrics :: "string \<times> int \<rightharpoonup> AnalyticsResult"

text \<open>
  What the upsert of a snapshot does is the environment's choice: the row is written,
  the call resolves with an error, or the promise is rejected.
\<close>

datatype upsert_outcome = Written | Refused PostgrestError | Rejected PostgrestError

subsection \<open>Fetching the two series\<close>

definition fetchODIAssessments :: "store \<Rightarrow> string \<Rightarrow> PostgrestError + ODIAssessment list" where
  "fetchODIAssessments st patientId =
     (let r = odi_assessments st patientId in
      case error r of
        Some e \<Rightarrow> Inl e
      | None \<Rightarrow> Inr (case data r of Some rows \<Rightarrow> rows | None \<Rightarrow> []))"

definition fetchVASScores :: "store \<Rightarrow> string \<Rightarrow> PostgrestError + VASScore list" where
  "fetchVASScores st patientId =
     (let r = vas_pain_scores st patientId in
      case error r of
        Some e \<Rightarrow> Inr []
      | None \<Rightarrow> Inr (case data r of Some rows \<Rightarrow> rows | None \<Rightarrow> []))"

subsection \<open>Persisting and computing the snapshot\<close>

text \<open>
  \<open>metric_date\<close> is \<open>new Date().toISOString().split('T')[0]\<close>, the UTC day of the
  clock reading, here the day number.
\<close>

definition metric_date :: "int \<Rightarrow> int" where
  "metric_date now = now div ms_per_day"

definition upsert_analytics_metrics ::
  "upsert_outcome \<Rightarrow> store \<Rightarrow> string \<times> int \<Rightarrow> AnalyticsResult \<Rightarrow> (PostgrestError + unit reply) \<times> store" where
  "upsert_analytics_metrics outcome st key row =
     (case outcome of
        Written \<Rightarrow>
          (Inr \<lparr>data = None, error = None\<rparr>,
           st\<lparr>analytics_metrics := (analytics_metrics st)(key \<mapsto> row)\<rparr>)
      | Refused e \<Rightarrow> (Inr \<lparr>data = None, error = Some e\<rparr>, st)
      | Rejected e \<Rightarrow> (Inl e, st))"

text \<open>\<open>try { await upsert } catch (error) { console.error }\<close>.\<close>

definition saveAnalytics ::
  "upsert_outcome \<Rightarrow> int \<Rightarrow> store \<Rightarrow> string \<Rightarrow> AnalyticsResult \<Rightarrow> (PostgrestError + unit) \<times> store" where
  "saveAnalytics outcome now st patientId analytics =
     (case upsert_analytics_metrics outcome st (patientId, metric_date now) analytics of
        (Inr r, st') \<Rightarrow> (Inr (), st')
      | (Inl e, st') \<Rightarrow> (Inr (), st'))"

definition calculateAnalytics ::
  "upsert_outcome \<Rightarrow> int \<Rightarrow> store \<Rightarrow> string \<Rightarrow> (PostgrestError + AnalyticsResult) \<times> store" where
  "calculateAnalytics outcome now st patientId =
     (case fetchODIAssessments st patientId of
        Inl e \<Rightarrow> (Inl e, st)
      | Inr odiData \<Rightarrow>
          (case fetchVASScores st patientId of
             Inl e \<Rightarrow> (Inl e, st)
           | Inr vasData \<Rightarrow>
               let result = \<lparr>timeToMCID = calculateTimeToMCID odiData,
                             trajectorySlope = calculateTrajectorySlope odiData,
                             painFunctionCorrelation =
                               calculatePainFunctionCorrelation odiData vasData,
                             weeksSinceBaseline = calculateWeeksSinceBaseline now odiData,
                             plateauDetected = detectPlateau odiData\<rparr>
               in case saveAnalytics outcome now st patientId result of
                    (Inl e, st') \<Rightarrow> (Inl e, st')
                  | (Inr u, st') \<Rightarrow> (Inr result, st')))"

subsection \<open>Benchmark comparison\<close>

text \<open>The field \<open>interpretation\<close> of the result is \<open>interpretation_label\<close> here.\<close>

record BenchmarkComparison =
  mean :: real
  percentile :: nat
  interpretation_label :: string

text \<open>
  The query of \<open>getBenchmarkComparison\<close>, step by step: \<open>eq\<close> and \<open>lte\<close> filter,
  \<open>order(..., { ascending: false })\<close> sorts by descending weeks, \<open>limit(1)\<close> keeps the
  first row and \<open>maybeSingle\<close> yields it, or \<open>null\<close> when there is none.
\<close>

definition order_weeks_descending :: "BenchmarkRow list \<Rightarrow> BenchmarkRow list" where
  "order_weeks_descending rows = rev (sort_key weeks_post_treatment rows)"

definition maybeSingle :: "'a list \<Rightarrow> 'a option" where
  "maybeSingle rows = (case rows of [] \<Rightarrow> None | r # _ \<Rightarrow> Some r)"

definition select_benchmark :: "store \<Rightarrow> TreatmentType \<Rightarrow> int \<Rightarrow> BenchmarkRow reply" where
  "select_benchmark st treatmentType weeksSinceTreatment =
     (case population_benchmarks_error st of
        Some e \<Rightarrow> \<lparr>data = None, error = Some e\<rparr>
      | None \<Rightarrow>
          \<lparr>data = maybeSingle (take 1 (order_weeks_descending
                     (filter (\<lambda>r. weeks_post_treatment r \<le> weeksSinceTreatment)
                        (filter (\<lambda>r. treatment_type r = treatmentType)
                           (population_benchmarks st))))),
           error = None\<rparr>)"

definition getBenchmarkComparison ::
  "store \<Rightarrow> real \<Rightarrow> TreatmentType \<Rightarrow> int \<Rightarrow> BenchmarkComparison option" where
  "getBenchmarkComparison st patientScore treatmentType weeksSinceTreatment =
     (let r = select_benchmark st treatmentType weeksSinceTreatment in
      if error r \<noteq> None \<or> data r = None then None
      else case data r of
        None \<Rightarrow> None
      | Some row \<Rightarrow>
          let percentile =
                (if patientScore \<le> percentile_25 row then 25
                 else if patientScore \<le> percentile_50 row then 50
                 else if patientScore \<le> percentile_75 row then 75
                 else (90::nat));
              interpretation_label =
                (if percentile \<le> 25 then ''excellent''
                 else if percentile \<le> 50 then ''above_average''
                 else if percentile \<le> 75 then ''average''
                 else ''below_average'')
          in Some \<lparr>mean = mean_odi_score row,
                    percentile = percentile,
                    interpretation_label = interpretation_label\<rparr>)"

subsection \<open>Stored scores and times\<close>

text \<open>
  What the schema stores: \<open>percentage_score\<close> is generated as a sum of ten integers of
  0 to 5, divided by 50 and multiplied by 100, an integer of 0 to 100; \<open>pain_score\<close> is
  an integer of 0 to 10. A time that \<open>Date\<close> can hold is at most 8.64e15 milliseconds
  from the epoch.
\<close>

definition stored_score :: "real \<Rightarrow> bool" where
  "stored_score s \<longleftrightarrow> s \<in> \<int> \<and> 0 \<le> s \<and> s \<le> 100"


definition valid_time :: "int \<Rightarrow> bool" where
  "valid_time t \<longleftrightarrow> \<bar>t\<bar> \<le> 8640000000000000"

subsection \<open>The plateau, the trajectory window and the correlation in the specification's words\<close>

text \<open>
  The absolute difference between the scores of two adjacent records, as the
  subtraction of doubles yields it.
\<close>

definition score_change :: "ODIAssessment \<Rightarrow> ODIAssessment \<Rightarrow> number" where
  "score_change a b = Math_abs (js_minus (Fin (percentage_score b)) (Fin (percentage_score a)))"

text \<open>
  The elapsed weeks between two times as \<open>calculateTrajectorySlope\<close> computes them:
  the difference, divided by the milliseconds of a day, divided by 7.
\<close>

definition elapsed_weeks :: "int \<Rightarrow> int \<Rightarrow> number" where
  "elapsed_weeks firstDate lastDate =
     js_divide
       (js_divide (js_minus (Fin (real_of_int lastDate)) (Fin (real_of_int firstDate)))
          (Fin 86400000))
       (Fin 7)"

text \<open>Elapsed time between the first and the last record of the last up to four.\<close>

definition window_elapsed :: "ODIAssessment list \<Rightarrow> int" where
  "window_elapsed xs =
     assessment_date (last (slice_last 4 xs)) - assessment_date (hd (slice_last 4 xs))"




definition pearson_numerator :: "(real \<times> real) list \<Rightarrow> real" where
  "pearson_numerator ps =
     real (length ps) * (\<Sum>(x, y)\<leftarrow>ps. x * y) - (\<Sum>(x, y)\<leftarrow>ps. x) * (\<Sum>(x, y)\<leftarrow>ps. y)"

definition spread_x :: "(real \<times> real) list \<Rightarrow> real" where
  "spread_x ps = real (length ps) * (\<Sum>(x, y)\<leftarrow>ps. x * x) - (\<Sum>(x, y)\<leftarrow>ps. x)\<^sup>2"

definition spread_y :: "(real \<times> real) list \<Rightarrow> real" where
  "spread_y ps = real (length ps) * (\<Sum>(x, y)\<leftarrow>ps. y * y) - (\<Sum>(x, y)\<leftarrow>ps. y)\<^sup>2"

definition pearson_denominator :: "(real \<times> real) list \<Rightarrow> real" where
  "pearson_denominator ps = sqrt (spread_x ps * spread_y ps)"

definition pearson :: "(real \<times> real) list \<Rightarrow> real" where
  "pearson ps = pearson_numerator ps / pearson_denominator ps"

subsection \<open>The snapshot as a function of the two series and the clock\<close>

definition snapshot :: "int \<Rightarrow> ODIAssessment list \<Rightarrow> VASScore list \<Rightarrow> AnalyticsResult" where
  "snapshot now odi vas =
     \<lparr>timeToMCID = calculateTimeToMCID odi,
      trajectorySlope = calculateTrajectorySlope odi,
      painFunctionCorrelation = calculatePainFunctionCorrelation odi vas,
      weeksSinceBaseline = calculateWeeksSinceBaseline now odi,
      plateauDetected = detectPlateau odi\<rparr>"

subsection \<open>Sample data\<close>

text \<open>An assessment without a baseline flag, taken on the given day after the epoch.\<close>

definition assessment_on_day :: "int \<Rightarrow> real \<Rightarrow> ODIAssessment" where
  "assessment_on_day day score =
     \<lparr>id = [], assessment_date = day * ms_per_day, percentage_score = score,
      is_baseline = None\<rparr>"

text \<open>
  A baseline of 70, a drop of 9 points after one week, of 12 points after three weeks
  and of 30 points after four.
\<close>

definition improving_series :: "ODIAssessment list" where
  "improving_series =
     [assessment_on_day 0 70, assessment_on_day 7 61, assessment_on_day 21 58,
      assessment_on_day 28 40]"

text \<open>A series whose flagged baseline is its second record, a week after the first.\<close>

definition late_baseline_series :: "ODIAssessment list" where
  "late_baseline_series =
     [assessment_on_day 0 50, (assessment_on_day 7 70)\<lparr>is_baseline := Some True\<rparr>,
      assessment_on_day 21 58]"

text \<open>Four weekly assessments with the same score, and four that drop 10 points a week.\<close>

definition flat_series :: "ODIAssessment list" where
  "flat_series =
     [assessment_on_day 0 50, assessment_on_day 7 50, assessment_on_day 14 50,
      assessment_on_day 21 50]"

definition steep_series :: "ODIAssessment list" where
  "steep_series =
     [assessment_on_day 0 50, assessment_on_day 7 40, assessment_on_day 14 30,
      assessment_on_day 21 20]"

text \<open>Three assessments over two weeks, each 6 points above the one before.\<close>

definition worsening_series :: "ODIAssessment list" where
  "worsening_series =
     [assessment_on_day 0 20, assessment_on_day 7 26, assessment_on_day 14 32]"

text \<open>
  Four assessments and three pain readings: the first three assessments have a reading
  within a day, the fourth has none within 3 days.
\<close>

definition reading_on_day :: "int \<Rightarrow> real \<Rightarrow> VASScore" where
  "reading_on_day day pain = \<lparr>recorded_date = day * ms_per_day, pain_score = pain\<rparr>"



text \<open>
  The benchmark rows for \<open>post_surgery\<close> that the schema migration inserts, and a
  store that answers every patient with \<open>improving_series\<close> and one pain reading.
\<close>

definition benchmark_row :: "int \<Rightarrow> real \<Rightarrow> real \<Rightarrow> real \<Rightarrow> real \<Rightarrow> real \<Rightarrow> int \<Rightarrow> BenchmarkRow" where
  "benchmark_row weeks m sd p25 p50 p75 n =
     \<lparr>treatment_type = post_surgery, weeks_post_treatment = weeks, mean_odi_score = m,
      std_dev_odi_score = sd, percentile_25 = p25, percentile_50 = p50, percentile_75 = p75,
      sample_size = n\<rparr>"

definition sample_benchmarks :: "BenchmarkRow list" where
  "sample_benchmarks =
     [benchmark_row 0 65 12.5 58 66 74 250,
      benchmark_row 2 58 11.8 50 58 66 248,
      benchmark_row 4 52 11.2 44 52 60 245,
      benchmark_row 6 46 10.5 38 46 54 242,
      benchmark_row 8 40 9.8 33 40 48 238,
      benchmark_row 12 32 9.2 26 32 39 235,
      benchmark_row 16 26 8.5 20 26 32 230,
      benchmark_row 24 18 7.8 13 18 24 225]"

definition sample_store :: store where
  "sample_store =
     \<lparr>odi_assessments = (\<lambda>p. \<lparr>data = Some improving_series, error = None\<rparr>),
      vas_pain_scores = (\<lambda>p. \<lparr>data = Some [reading_on_day 0 5], error = None\<rparr>),
      population_benchmarks = sample_benchmarks,
      population_benchmarks_error = None,
      analytics_metrics = Map.empty\<rparr>"

text \<open>The same store with a failing pain query, and with a failing assessment query.\<close>

definition fetch_failed :: PostgrestError where
  "fetch_failed = PostgrestError ''fetch failed''"

definition pain_fetch_failing_store :: store where
  "pain_fetch_failing_store =
     sample_store\<lparr>vas_pain_scores := (\<lambda>p. \<lparr>data = None, error = Some fetch_failed\<rparr>)\<rparr>"

definition assessment_fetch_failing_store :: store where
  "assessment_fetch_failing_store =
     sample_store\<lparr>odi_assessments := (\<lambda>p. \<lparr>data = None, error = Some fetch_failed\<rparr>)\<rparr>"




text \<open>
  Two assessments a week apart, the second lower than the first by \<open>2\<^sup>-\<^sup>4\<^sup>7\<close>, one unit
  in the last place of the first score.
\<close>

definition absorbed_drop_series :: "ODIAssessment list" where
  "absorbed_drop_series =
     [assessment_on_day 0 (7036874417766401 / 140737488355328), assessment_on_day 7 50]"

text \<open>
  Two assessments a week apart with the doubles read from 10.1 and 0.1, and four weekly
  assessments with the doubles read from 0.1, 5.1, 5.1 and 5.1.
\<close>

definition rounded_drop_series :: "ODIAssessment list" where
  "rounded_drop_series =
     [assessment_on_day 0 (5685794529555251 / 562949953421312),
      assessment_on_day 7 (3602879701896397 / 36028797018963968)]"

definition rounded_step_series :: "ODIAssessment list" where
  "rounded_step_series =
     [assessment_on_day 0 (3602879701896397 / 36028797018963968),
      assessment_on_day 7 (2871044762448691 / 562949953421312),
      assessment_on_day 14 (2871044762448691 / 562949953421312),
      assessment_on_day 21 (2871044762448691 / 562949953421312)]"

section \<open>Properties\<close>

subsection \<open>Rounding to a double\<close>

lemma binade_from_range: "e \<le> binade_from k e x \<and> binade_from k e x \<le> e + int k"
proof (induction k arbitrary: e)
  case 0 then show ?case by simp
next
  case (Suc k)
  from Suc[of "e + 1"] show ?case by auto
qed

lemma binade_from_lower:
  "e < binade_from k e x \<Longrightarrow> 2 powi (binade_from k e x) \<le> x"
proof (induction k arbitrary: e)
  case 0 then show ?case by simp
next
  case (Suc k)
  show ?case
  proof (cases "x < 2 powi (e + 1)")
    case True with Suc.prems show ?thesis by simp
  next
    case False
    show ?thesis
    proof (cases "e + 1 < binade_from k (e + 1) x")
      case True
      with Suc.IH[of "e + 1"] False show ?thesis by simp
    next
      case F: False
      with binade_from_range[of "e + 1" k x] have "binade_from k (e + 1) x = e + 1" by simp
      with False show ?thesis by simp
    qed
  qed
qed

lemma binade_from_eq:
  assumes "e0 \<le> e" "e \<le> e0 + int k" "x < 2 powi (e + 1) \<or> e = e0 + int k"
    "e = e0 \<or> 2 powi e \<le> x"
  shows "binade_from k e0 x = e"
  using assms
proof (induction k arbitrary: e0)
  case 0 then show ?case by simp
next
  case (Suc k)
  show ?case
  proof (cases "e = e0")
    case True
    with Suc.prems show ?thesis by auto
  next
    case False
    with Suc.prems have ge: "2 powi e \<le> x" and lt: "e0 + 1 \<le> e" by auto
    have "(2::real) powi (e0 + 1) \<le> 2 powi e" using lt by (intro power_int_increasing) simp_all
    with ge have "\<not> x < 2 powi (e0 + 1)" by linarith
    moreover have "binade_from k (e0 + 1) x = e"
      using Suc.prems lt ge by (intro Suc.IH) auto
    ultimately show ?thesis by simp
  qed
qed

lemma binade_lower: "- 1022 < binade x \<Longrightarrow> 2 powi (binade x) \<le> \<bar>x\<bar>"
  unfolding binade_def by (rule binade_from_lower)

lemma binade_eq:
  assumes "- 1022 \<le> e" "e \<le> 1023" "\<bar>x\<bar> < 2 powi (e + 1) \<or> e = 1023"
    "e = - 1022 \<or> 2 powi e \<le> \<bar>x\<bar>"
  shows "binade x = e"
  unfolding binade_def using assms by (intro binade_from_eq) auto

lemma binade_minus [simp]: "binade (- x) = binade x"
  by (simp add: binade_def)

lemma round_half_even_floor: "\<lfloor>r\<rfloor> \<le> round_half_even r \<and> round_half_even r \<le> \<lfloor>r\<rfloor> + 1"
  by (auto simp: round_half_even_def Let_def)

lemma round_half_even_ge: "of_int i \<le> r \<Longrightarrow> i \<le> round_half_even r"
proof -
  assume "of_int i \<le> r"
  then have "i \<le> \<lfloor>r\<rfloor>" by (simp add: le_floor_iff)
  with round_half_even_floor[of r] show ?thesis by linarith
qed

lemma round_half_even_of_int [simp]: "round_half_even (of_int i) = i"
  by (simp add: round_half_even_def)

lemma round_half_even_zero [simp]: "round_half_even 0 = 0"
  using round_half_even_of_int[of 0] by simp

lemma round_half_even_minus: "round_half_even (- r) = - round_half_even r"
proof (cases "r = of_int \<lfloor>r\<rfloor>")
  case True
  then obtain i where "r = of_int i" ..
  then have "round_half_even (- r) = round_half_even (of_int (- i))" by simp
  also have "\<dots> = - i" by (rule round_half_even_of_int)
  finally show ?thesis using \<open>r = of_int i\<close> by simp
next
  case False
  then have fl: "\<lfloor>- r\<rfloor> = - \<lfloor>r\<rfloor> - 1"
    by (simp add: floor_minus ceiling_altdef)
  show ?thesis
    unfolding round_half_even_def Let_def fl by (auto simp: algebra_simps)
qed


lemma double_limit_pos: "0 < double_limit"
  by (simp add: double_limit_def)

lemma below_double_limit: "j < 1024 \<Longrightarrow> 2 powi j < double_limit"
  unfolding double_limit_def by (intro power_int_strict_increasing) simp_all

lemma rounded_zero [simp]: "rounded 0 = 0"
  by (simp add: rounded_def)

lemma round_double_zero [simp]: "round_double 0 = Fin 0"
  using double_limit_pos by (simp add: round_double_def)

lemma rounded_minus: "rounded (- x) = - rounded x"
  by (simp add: rounded_def round_half_even_minus)

lemma round_double_minus: "round_double (- x) = js_neg (round_double x)"
proof (cases "x = 0")
  case True then show ?thesis by simp
next
  case False
  then show ?thesis by (auto simp: round_double_def rounded_minus)
qed

text \<open>
  Rounding does not pass a double: if \<open>c = m \<cdot> 2\<^sup>j\<close> with at most 53 bits in \<open>m\<close> lies at
  or below \<open>x\<close>, it lies at or below the rounded \<open>x\<close>. Either \<open>c\<close> is a multiple of the
  unit of the binade of \<open>x\<close>, or it is no greater in magnitude than the lower end of that
  binade, which is such a multiple.
\<close>

lemma rounded_ge:
  assumes c: "c = of_int m * 2 powi j" "\<bar>m\<bar> \<le> 2 ^ 53" "- 1074 \<le> j" and le: "c \<le> x"
  shows "c \<le> rounded x"
proof -
  define e where "e = binade x"
  define u :: real where "u = 2 powi (e - 52)"
  define k where "k = round_half_even (x / u)"
  have u: "0 < u" by (simp add: u_def)
  have r: "rounded x = of_int k * u" by (simp add: rounded_def k_def u_def e_def)
  show ?thesis
  proof (cases "e - 52 \<le> j")
    case True
    define i where "i = m * 2 ^ nat (j - (e - 52))"
    have "(2::real) powi j = 2 powi (j - (e - 52)) * u"
      unfolding u_def by (subst power_int_add[symmetric]) simp_all
    also have "(2::real) powi (j - (e - 52)) = 2 ^ nat (j - (e - 52))"
      using True by (intro power_int_nonneg_exp) simp
    finally have ci: "c = of_int i * u" by (simp add: c(1) i_def)
    then have "of_int i \<le> x / u" using le u by (simp add: field_simps)
    then have "i \<le> k" unfolding k_def by (rule round_half_even_ge)
    then have "of_int i * u \<le> of_int k * u" using u by simp
    then show ?thesis by (simp add: r ci)
  next
    case False
    then have j: "j \<le> e - 53" by simp
    have "\<bar>c\<bar> = of_int \<bar>m\<bar> * 2 powi j" by (simp add: c(1) abs_mult)
    also have "\<dots> \<le> 2 ^ 53 * 2 powi j"
    proof -
      have "real_of_int \<bar>m\<bar> \<le> real_of_int (2 ^ 53)" using c(2) by (simp only: of_int_le_iff)
      then show ?thesis by (intro mult_right_mono) simp_all
    qed
    also have "\<dots> \<le> 2 ^ 53 * 2 powi (e - 53)"
      using j by (intro mult_left_mono power_int_increasing) simp_all
    also have "\<dots> = 2 powi e"
    proof -
      have "(2::real) powi e = 2 powi (53 + (e - 53))" by simp
      also have "\<dots> = 2 powi 53 * 2 powi (e - 53)" by (rule power_int_add) simp
      finally show ?thesis by simp
    qed
    finally have cb: "\<bar>c\<bar> \<le> 2 powi e" .
    have pe: "(2::real) powi e = of_int (2 ^ 52) * u"
    proof -
      have "(2::real) powi e = 2 powi (52 + (e - 52))" by simp
      also have "\<dots> = 2 powi 52 * 2 powi (e - 52)" by (rule power_int_add) simp
      finally show ?thesis by (simp add: u_def)
    qed
    have "- 1022 < e" using j c(3) by simp
    then have xb: "2 powi e \<le> \<bar>x\<bar>" unfolding e_def by (rule binade_lower)
    show ?thesis
    proof (cases "0 \<le> x")
      case True
      with xb have "of_int (2 ^ 52) \<le> x / u" using u by (simp add: pe field_simps)
      then have "2 ^ 52 \<le> k" unfolding k_def by (rule round_half_even_ge)
      then have "real_of_int (2 ^ 52) \<le> real_of_int k" by (simp only: of_int_le_iff)
      then have "of_int (2 ^ 52) * u \<le> of_int k * u" using u
        by (intro mult_right_mono) (assumption, simp)
      then have "2 powi e \<le> rounded x" by (simp only: r pe)
      with cb show ?thesis by linarith
    next
      case False
      with xb have "x \<le> - (2 powi e)" by simp
      with le cb have "c = x" "x = - (2 powi e)" by linarith+
      then have "x / u = of_int (- (2 ^ 52))" using u by (simp add: pe)
      then have "k = - (2 ^ 52)" unfolding k_def by (simp only: round_half_even_of_int)
      then have "rounded x = - (2 powi e)" by (simp add: r pe)
      with \<open>c = x\<close> \<open>x = - (2 powi e)\<close> show ?thesis by simp
    qed
  qed
qed

lemma rounded_le:
  assumes c: "c = of_int m * 2 powi j" "\<bar>m\<bar> \<le> 2 ^ 53" "- 1074 \<le> j" and le: "x \<le> c"
  shows "rounded x \<le> c"
proof -
  have "- c \<le> rounded (- x)"
    using c le by (intro rounded_ge[where m = "- m" and j = j]) simp_all
  then show ?thesis by (simp add: rounded_minus)
qed

lemma rounded_zero_sign: "0 \<le> x \<Longrightarrow> 0 \<le> rounded x" "x \<le> 0 \<Longrightarrow> rounded x \<le> 0"
  using rounded_ge[of 0 0 0 x] rounded_le[of 0 0 0 x] by simp_all

lemma round_double_at_least:
  assumes "is_double c" "c \<le> x"
  shows "at_least (round_double x) c"
proof -
  from assms(1) obtain m j where c: "c = of_int m * 2 powi j" "\<bar>m\<bar> \<le> 2 ^ 53" "- 1074 \<le> j"
    and lim: "\<bar>c\<bar> < double_limit" by (auto simp: is_double_def)
  have ge: "c \<le> rounded x" using c assms(2) by (rule rounded_ge)
  show ?thesis
  proof (cases "\<bar>rounded x\<bar> \<ge> double_limit")
    case False
    with ge show ?thesis by (simp add: round_double_def)
  next
    case True
    have "0 < x"
    proof (rule ccontr)
      assume "\<not> 0 < x"
      then have "rounded x \<le> 0" by (intro rounded_zero_sign) simp
      with True ge lim show False by linarith
    qed
    with True show ?thesis by (simp add: round_double_def)
  qed
qed

lemma is_double_minus: "is_double c \<Longrightarrow> is_double (- c)"
  unfolding is_double_def
proof (elim conjE exE, intro conjI exI)
  fix m j assume "c = real_of_int m * 2 powi j" "\<bar>m\<bar> \<le> 2 ^ 53" "- 1074 \<le> j"
  then show "- c = real_of_int (- m) * 2 powi j" "\<bar>- m\<bar> \<le> 2 ^ 53" "- 1074 \<le> j" by simp_all
qed simp

lemma at_least_js_neg: "at_least (js_neg n) (- c) \<longleftrightarrow> at_most n c"
  by (cases n) simp_all

lemma round_double_at_most:
  assumes "is_double c" "x \<le> c"
  shows "at_most (round_double x) c"
proof -
  have "at_least (round_double (- x)) (- c)"
    using assms by (intro round_double_at_least is_double_minus) simp_all
  then show ?thesis by (simp add: round_double_minus at_least_js_neg)
qed

lemma round_double_between:
  assumes "is_double lo" "is_double hi" "lo \<le> x" "x \<le> hi"
  shows "\<exists>r. round_double x = Fin r \<and> lo \<le> r \<and> r \<le> hi"
  using round_double_at_least[OF assms(1,3)] round_double_at_most[OF assms(2,4)]
  by (cases "round_double x") simp_all

lemma round_double_exact: "is_double c \<Longrightarrow> round_double c = Fin c"
  using round_double_between[of c c c] by auto

lemma is_double_power: "- 1074 \<le> j \<Longrightarrow> j < 1024 \<Longrightarrow> is_double (2 powi j)"
  unfolding is_double_def
  by (intro conjI exI[of _ 1] exI[of _ j]) (simp_all add: below_double_limit)

lemma is_double_Ints:
  assumes "x \<in> \<int>" "\<bar>x\<bar> \<le> 2 ^ 53"
  shows "is_double x"
proof -
  from assms(1) obtain n where x: "x = of_int n" by (auto elim: Ints_cases)
  with assms(2) have "real_of_int \<bar>n\<bar> \<le> real_of_int (2 ^ 53)" by simp
  then have n: "\<bar>n\<bar> \<le> 2 ^ 53" by (simp only: of_int_le_iff)
  have "\<bar>x\<bar> \<le> 2 powi 53" using assms(2) by simp
  also have "(2::real) powi 53 < double_limit" by (rule below_double_limit) simp
  finally have "\<bar>x\<bar> < double_limit" .
  with x n show ?thesis
    unfolding is_double_def by (intro conjI exI[of _ n] exI[of _ 0]) simp_all
qed

lemma round_double_Ints: "x \<in> \<int> \<Longrightarrow> \<bar>x\<bar> \<le> 2 ^ 53 \<Longrightarrow> round_double x = Fin x"
  by (intro round_double_exact is_double_Ints)

text \<open>Evaluation at a number whose binade is known.\<close>

lemma round_double_eval:
  assumes "2 powi e \<le> \<bar>x\<bar>" "\<bar>x\<bar> < 2 powi (e + 1)" "- 1022 \<le> e" "e < 1023"
    and "k = round_half_even (x / 2 powi (e - 52))"
  shows "round_double x = Fin (of_int k * 2 powi (e - 52))"
proof -
  have b: "binade x = e" using assms(1-4) by (intro binade_eq) auto
  have r: "rounded x = of_int k * 2 powi (e - 52)" by (simp add: rounded_def b assms(5))
  have "- (2 powi (e + 1)) \<le> rounded x"
    using assms by (intro rounded_ge[where m = "- 1" and j = "e + 1"]) auto
  moreover have "rounded x \<le> 2 powi (e + 1)"
    using assms by (intro rounded_le[where m = 1 and j = "e + 1"]) auto
  ultimately have "\<bar>rounded x\<bar> \<le> 2 powi (e + 1)" by simp
  also have "(2::real) powi (e + 1) < double_limit"
    using assms(4) by (intro below_double_limit) simp
  finally show ?thesis by (simp add: round_double_def r)
qed

lemma read_25_1: "round_double (251 / 10) = Fin (3532510957718733 / 140737488355328)"
  by (rule trans[OF round_double_eval[where e = 4 and k = 7065021915437466]])
     (simp_all add: round_half_even_def)

subsection \<open>Baseline and the last four records\<close>

lemma truthy_iff: "truthy b \<longleftrightarrow> b = Some True"
  by (auto simp: truthy_def split: option.splits bool.splits)

lemma find_baseline_spec: "xs \<noteq> [] \<Longrightarrow> find_baseline xs = Some (spec_baseline xs)"
  by (cases xs) (auto simp: find_baseline_def spec_baseline_def truthy_iff split: option.splits)

lemma sorted_hd_least:
  "sorted (map assessment_date xs) \<Longrightarrow> a \<in> set xs \<Longrightarrow>
     assessment_date (hd xs) \<le> assessment_date a"
  by (cases xs) auto

lemma length_slice_last: "length (slice_last k xs) = min k (length xs)"
  by (auto simp: slice_last_def)

lemma slice_last_nth:
  "i < min k (length xs) \<Longrightarrow> slice_last k xs ! i = xs ! (length xs - k + i)"
  by (simp add: slice_last_def)

lemma slice_last_4:
  assumes "4 \<le> length xs"
  shows "slice_last 4 xs =
     [xs ! (length xs - 4), xs ! (length xs - 3), xs ! (length xs - 2), xs ! (length xs - 1)]"
    (is "_ = ?w")
proof (rule nth_equalityI)
  show "length (slice_last 4 xs) = length ?w"
    using assms by (simp add: length_slice_last)
next
  fix i assume "i < length (slice_last 4 xs)"
  then have i: "i < 4" by (simp add: length_slice_last)
  have idx: "length xs - 4 + 1 = length xs - 3" "length xs - 4 + 2 = length xs - 2"
    "length xs - 4 + 3 = length xs - 1"
    using assms by simp_all
  have nth: "slice_last 4 xs ! j = xs ! (length xs - 4 + j)" if "j < 4" for j
    using that assms by (simp add: slice_last_nth)
  from i consider "i = 0" | "i = 1" | "i = 2" | "i = 3" by linarith
  then show "slice_last 4 xs ! i = ?w ! i"
    using nth[of 0] nth[of 1] nth[of 2] nth[of 3] idx by cases simp_all
qed

lemma upt_1_4: "[1 ..< 4] = [1, 2, 3]"
  by (simp add: upt_rec)

subsection \<open>Time to MCID\<close>

lemma js_ge_at_least: "js_ge n (Fin c) \<longleftrightarrow> at_least n c"
  by (cases n) simp_all

lemma js_less_at_least: "js_less n (Fin c) \<Longrightarrow> \<not> at_least n c"
  by (cases n) simp_all

lemma is_double_10: "is_double 10"
  by (rule is_double_Ints) simp_all

lemma reaches_mcid_exact:
  "percentage_score b - percentage_score a \<ge> 10 \<Longrightarrow> reaches_mcid b a"
  using round_double_at_least[OF is_double_10, of "percentage_score b - percentage_score a"]
  by (simp add: reaches_mcid_def js_ge_at_least)

lemma reaches_mcid_double:
  assumes "is_double (percentage_score b - percentage_score a)"
  shows "reaches_mcid b a \<longleftrightarrow> percentage_score b - percentage_score a \<ge> 10"
  by (simp add: reaches_mcid_def round_double_exact[OF assms])

lemma mcid_scan_find:
  "mcid_scan b xs =
     (case find (reaches_mcid b) xs of None \<Rightarrow> None | Some a \<Rightarrow> Some (days_between b a))"
  by (induction xs) (simp_all add: reaches_mcid_def days_between_def ODI_MCID_THRESHOLD_def)

lemma timeToMCID_find:
  assumes "2 \<le> length xs"
  shows "calculateTimeToMCID xs =
     (case find (reaches_mcid (spec_baseline xs)) xs of
        None \<Rightarrow> None
      | Some a \<Rightarrow> Some (days_between (spec_baseline xs) a))"
proof -
  from assms have "xs \<noteq> []" by auto
  then have "find_baseline xs = Some (spec_baseline xs)" by (rule find_baseline_spec)
  with assms show ?thesis by (simp add: calculateTimeToMCID_def mcid_scan_find)
qed

text \<open>
  The threshold is tested on the rounded difference: the scores read from 10.1 and 0.1
  differ by less than 10 as reals and by 10 as doubles, and the time to MCID is the
  7 days between them.
\<close>

lemma timeToMCID_rounded_drop:
  "(5685794529555251 / 562949953421312 - 3602879701896397 / 36028797018963968 :: real) < 10 \<and>
   calculateTimeToMCID rounded_drop_series = Some 7"
proof -
  have d: "round_double (360287970189639667 / 36028797018963968) = Fin 10"
    by (rule trans[OF round_double_eval[where e = 3 and k = 5629499534213120]])
       (simp_all add: round_half_even_def)
  show ?thesis
    by (simp add: calculateTimeToMCID_def find_baseline_def truthy_def rounded_drop_series_def
        assessment_on_day_def ODI_MCID_THRESHOLD_def ms_per_day_def d)
qed

text \<open>
  C1. A series of fewer than two assessments has no time to MCID. Otherwise, with the
  baseline the flagged record, or the first record when none is flagged (the earliest
  one of a date-ascending series), the result is the day count, rounded up, from the
  baseline to the first record in scan order for which \<open>baselineScore - currentScore\<close>,
  the double that the subtraction yields, is at least 10, and \<open>null\<close> when there is no
  such record. The baseline never reaches the threshold against itself. A record whose
  score lies 10 points or more below the baseline's always reaches it, and when the
  exact difference is a double, as it is for stored scores, no other record does.
\<close>

theorem timeToMCID_first_threshold_crossing:
  "(length xs < 2 \<longrightarrow> calculateTimeToMCID xs = None) \<and>
   (2 \<le> length xs \<longrightarrow>
      calculateTimeToMCID xs =
        (case find (reaches_mcid (spec_baseline xs)) xs of
           None \<Rightarrow> None
         | Some a \<Rightarrow> Some (days_between (spec_baseline xs) a))) \<and>
   (find (\<lambda>a. is_baseline a = Some True) xs = None \<and> sorted (map assessment_date xs) \<longrightarrow>
      (\<forall>a \<in> set xs. assessment_date (spec_baseline xs) \<le> assessment_date a)) \<and>
   \<not> reaches_mcid (spec_baseline xs) (spec_baseline xs) \<and>
   (percentage_score b - percentage_score a \<ge> 10 \<longrightarrow> reaches_mcid b a) \<and>
   (is_double (percentage_score b - percentage_score a) \<longrightarrow>
      (reaches_mcid b a \<longleftrightarrow> percentage_score b - percentage_score a \<ge> 10))"
proof (intro conjI impI)
  assume "length xs < 2"
  then show "calculateTimeToMCID xs = None" by (simp add: calculateTimeToMCID_def)
next
  assume "2 \<le> length xs"
  then show "calculateTimeToMCID xs =
        (case find (reaches_mcid (spec_baseline xs)) xs of
           None \<Rightarrow> None
         | Some a \<Rightarrow> Some (days_between (spec_baseline xs) a))"
    by (rule timeToMCID_find)
next
  assume "find (\<lambda>a. is_baseline a = Some True) xs = None \<and> sorted (map assessment_date xs)"
  then show "\<forall>a \<in> set xs. assessment_date (spec_baseline xs) \<le> assessment_date a"
    by (auto simp: spec_baseline_def intro: sorted_hd_least)
next
  show "\<not> reaches_mcid (spec_baseline xs) (spec_baseline xs)"
    by (simp add: reaches_mcid_def)
next
  assume "percentage_score b - percentage_score a \<ge> 10"
  then show "reaches_mcid b a" by (rule reaches_mcid_exact)
next
  assume "is_double (percentage_score b - percentage_score a)"
  then show "reaches_mcid b a \<longleftrightarrow> percentage_score b - percentage_score a \<ge> 10"
    by (rule reaches_mcid_double)
qed

theorem timeToMCID_first_threshold_crossing_witness:
  "length [assessment_on_day 0 70] < 2 \<and>
   calculateTimeToMCID [assessment_on_day 0 70] = None \<and>
   2 \<le> length improving_series \<and>
   find (\<lambda>a. is_baseline a = Some True) improving_series = None \<and>
   sorted (map assessment_date improving_series) \<and>
   spec_baseline improving_series = assessment_on_day 0 70 \<and>
   find (reaches_mcid (spec_baseline improving_series)) improving_series
     = Some (assessment_on_day 21 58) \<and>
   calculateTimeToMCID improving_series = Some 21 \<and>
   is_double (70 - 58) \<and>
   reaches_mcid (assessment_on_day 0 70) (assessment_on_day 21 58) \<and>
   \<not> reaches_mcid (assessment_on_day 0 70) (assessment_on_day 7 61)"
  using timeToMCID_first_threshold_crossing [of "[assessment_on_day 0 70]"]
    timeToMCID_first_threshold_crossing
      [of improving_series "assessment_on_day 0 70" "assessment_on_day 21 58"]
    is_double_Ints [of "70 - 58"]
  by (simp add: improving_series_def assessment_on_day_def spec_baseline_def reaches_mcid_def
      days_between_def ms_per_day_def round_double_Ints)

lemma negative_day_count:
  assumes "calendar_date s" "calendar_date t" "t < s"
  shows "\<lceil>real_of_int (t - s) / 86400000\<rceil> < 0"
proof -
  from assms(1,2) have "(t - s) mod ms_per_day = 0"
    by (simp add: calendar_date_def mod_diff_eq[symmetric] del: mod_diff_eq)
  then obtain k where k: "t - s = ms_per_day * k" by (auto simp: mod_eq_0_iff_dvd)
  with assms(3) have "k < 0" by (simp add: ms_per_day_def)
  have "real_of_int (t - s) / 86400000 = real_of_int k"
    using k by (simp add: ms_per_day_def)
  then show ?thesis using \<open>k < 0\<close> by simp
qed

text \<open>
  C10. The day count can be negative. In a date-ascending series of calendar dates
  with a flagged baseline, if some record is dated before the baseline and scores at
  least 10 points below it, the scan stops at a record dated before the baseline and
  the result is a negative number of days.
\<close>

theorem timeToMCID_negative_before_flagged_baseline:
  assumes sorted: "sorted (map assessment_date xs)"
    and dates: "\<forall>a \<in> set xs. calendar_date (assessment_date a)"
    and flagged: "find (\<lambda>a. is_baseline a = Some True) xs = Some b"
    and e: "e \<in> set xs" "assessment_date e < assessment_date b"
      "percentage_score b - percentage_score e \<ge> 10"
  shows "\<exists>f d. find (reaches_mcid b) xs = Some f \<and> assessment_date f < assessment_date b \<and>
           calculateTimeToMCID xs = Some d \<and> d = days_between b f \<and> d < 0"
proof -
  have b_in: "b \<in> set xs" using flagged by (auto simp: find_Some_iff)
  have "e \<noteq> b" using e(2) by auto
  with b_in e(1) have len: "2 \<le> length xs"
    by (cases xs; cases "tl xs") auto
  have base: "spec_baseline xs = b" using flagged by (simp add: spec_baseline_def)
  obtain k where k: "k < length xs" "xs ! k = e" using e(1) by (auto simp: in_set_conv_nth)
  have reach: "reaches_mcid b e" using e(3) by (rule reaches_mcid_exact)
  then have "find (reaches_mcid b) xs \<noteq> None" using e(1) by (auto simp: find_None_iff)
  then obtain f where f: "find (reaches_mcid b) xs = Some f" by auto
  then obtain i where i: "i < length xs" "f = xs ! i" "\<forall>j<i. \<not> reaches_mcid b (xs ! j)"
    by (auto simp: find_Some_iff)
  have "i \<le> k" using i(3) k reach by (meson not_le)
  then have "map assessment_date xs ! i \<le> map assessment_date xs ! k"
    using sorted k(1) by (intro sorted_nth_mono) simp_all
  then have "assessment_date f \<le> assessment_date e"
    using k i \<open>i \<le> k\<close> by simp
  then have lt: "assessment_date f < assessment_date b" using e(2) by simp
  have "f \<in> set xs" using i by simp
  then have "days_between b f < 0"
    unfolding days_between_def
    using negative_day_count[of "assessment_date b" "assessment_date f"] dates b_in lt
    by simp
  moreover have "calculateTimeToMCID xs = Some (days_between b f)"
    using timeToMCID_find[OF len] base f by simp
  ultimately show ?thesis using f lt by simp
qed

theorem timeToMCID_negative_before_flagged_baseline_witness:
  "sorted (map assessment_date late_baseline_series) \<and>
   list_all (\<lambda>a. calendar_date (assessment_date a)) late_baseline_series \<and>
   find (\<lambda>a. is_baseline a = Some True) late_baseline_series
     = Some ((assessment_on_day 7 70)\<lparr>is_baseline := Some True\<rparr>) \<and>
   assessment_on_day 0 50 \<in> set late_baseline_series \<and>
   calculateTimeToMCID late_baseline_series = Some (- 7)"
  using timeToMCID_negative_before_flagged_baseline
    [of late_baseline_series "(assessment_on_day 7 70)\<lparr>is_baseline := Some True\<rparr>"
        "assessment_on_day 0 50"]
  by (simp add: late_baseline_series_def assessment_on_day_def calendar_date_def
      reaches_mcid_def days_between_def ms_per_day_def round_double_Ints)

subsection \<open>Weeks since baseline\<close>

text \<open>
  C4, as the code has it. An empty series gives 0; otherwise the result is the floor of
  the weeks from the baseline date to now. Nothing clamps it: it is non-negative
  exactly when the baseline date is not after now.
\<close>

theorem weeksSinceBaseline_floor_unclamped:
  "calculateWeeksSinceBaseline now [] = 0 \<and>
   (xs \<noteq> [] \<longrightarrow>
      calculateWeeksSinceBaseline now xs =
        \<lfloor>real_of_int (now - assessment_date (spec_baseline xs)) / 86400000 / 7\<rfloor> \<and>
      (0 \<le> calculateWeeksSinceBaseline now xs \<longleftrightarrow> assessment_date (spec_baseline xs) \<le> now))"
proof (intro conjI impI)
  show "calculateWeeksSinceBaseline now [] = 0" by (simp add: calculateWeeksSinceBaseline_def)
next
  assume ne: "xs \<noteq> []"
  then show eq: "calculateWeeksSinceBaseline now xs =
        \<lfloor>real_of_int (now - assessment_date (spec_baseline xs)) / 86400000 / 7\<rfloor>"
    by (simp add: calculateWeeksSinceBaseline_def find_baseline_spec)
  show "0 \<le> calculateWeeksSinceBaseline now xs \<longleftrightarrow> assessment_date (spec_baseline xs) \<le> now"
    unfolding eq by (simp add: zero_le_floor zero_le_divide_iff)
qed

theorem weeksSinceBaseline_floor_unclamped_witness:
  "improving_series \<noteq> [] \<and>
   calculateWeeksSinceBaseline (30 * ms_per_day) improving_series = 4 \<and>
   assessment_date (spec_baseline improving_series) \<le> 30 * ms_per_day"
  using weeksSinceBaseline_floor_unclamped [of "30 * ms_per_day" improving_series]
  by (simp add: improving_series_def assessment_on_day_def spec_baseline_def ms_per_day_def)

text \<open>
  A baseline dated one day after now: the result is \<open>-1\<close>, not 0.
\<close>

theorem weeksSinceBaseline_future_baseline_negative:
  "calculateWeeksSinceBaseline 0 [assessment_on_day 1 50] = - 1"
  by (simp add: calculateWeeksSinceBaseline_def find_baseline_def truthy_def
      assessment_on_day_def ms_per_day_def)

subsection \<open>Plateau detection\<close>

lemma is_double_5: "is_double 5" "is_double (- 5)"
  by (rule is_double_Ints; simp)+

lemma score_change_exact:
  assumes "\<bar>percentage_score b - percentage_score a\<bar> \<ge> 5"
  shows "\<not> js_less (score_change a b) (Fin 5)"
proof (cases "percentage_score b - percentage_score a \<ge> 5")
  case True
  then have "at_least (round_double (percentage_score b - percentage_score a)) 5"
    by (intro round_double_at_least is_double_5)
  then show ?thesis
    by (cases "round_double (percentage_score b - percentage_score a)")
       (simp_all add: score_change_def)
next
  case False
  with assms have "percentage_score b - percentage_score a \<le> - 5" by linarith
  then have "at_most (round_double (percentage_score b - percentage_score a)) (- 5)"
    by (intro round_double_at_most is_double_5)
  then show ?thesis
    by (cases "round_double (percentage_score b - percentage_score a)")
       (simp_all add: score_change_def)
qed

lemma score_change_double:
  assumes "is_double (percentage_score b - percentage_score a)"
  shows "js_less (score_change a b) (Fin 5) \<longleftrightarrow> \<bar>percentage_score b - percentage_score a\<bar> < 5"
  by (simp add: score_change_def round_double_exact[OF assms])

text \<open>
  The changes are rounded differences: the scores read from 0.1 and 5.1 differ by less
  than 5 as reals and by 5 as doubles, and the series is not a plateau.
\<close>

lemma detectPlateau_rounded_step:
  "(2871044762448691 / 562949953421312 - 3602879701896397 / 36028797018963968 :: real) < 5 \<and>
   \<not> detectPlateau rounded_step_series"
proof -
  have d: "round_double (180143985094819827 / 36028797018963968) = Fin 5"
    by (rule trans[OF round_double_eval[where e = 2 and k = 5629499534213120]])
       (simp_all add: round_half_even_def)
  show ?thesis
    by (simp add: detectPlateau_def slice_last_def rounded_step_series_def
        assessment_on_day_def upt_1_4 Let_def d)
qed

text \<open>
  C6. Fewer than four assessments are never a plateau. With four or more, a plateau is
  detected exactly when the three absolute differences between adjacent scores of the
  last four records, each the double that the subtraction yields, are all below 5. An
  exact difference of 5 or more is never below 5 as a double, and when the exact
  difference is a double, as it is for stored scores, the two comparisons agree.
  Scores 50, 50, 50, 50 are a plateau; scores 50, 40, 30, 20 are not.
\<close>

theorem detectPlateau_last_four:
  "(length xs < 4 \<longrightarrow> \<not> detectPlateau xs) \<and>
   (4 \<le> length xs \<longrightarrow>
      (detectPlateau xs \<longleftrightarrow>
         js_less (score_change (xs ! (length xs - 4)) (xs ! (length xs - 3))) (Fin 5) \<and>
         js_less (score_change (xs ! (length xs - 3)) (xs ! (length xs - 2))) (Fin 5) \<and>
         js_less (score_change (xs ! (length xs - 2)) (xs ! (length xs - 1))) (Fin 5))) \<and>
   (\<bar>percentage_score b - percentage_score a\<bar> \<ge> 5 \<longrightarrow>
      \<not> js_less (score_change a b) (Fin 5)) \<and>
   (is_double (percentage_score b - percentage_score a) \<longrightarrow>
      (js_less (score_change a b) (Fin 5) \<longleftrightarrow>
         \<bar>percentage_score b - percentage_score a\<bar> < 5)) \<and>
   (map percentage_score xs = [50, 50, 50, 50] \<longrightarrow> detectPlateau xs) \<and>
   (map percentage_score xs = [50, 40, 30, 20] \<longrightarrow> \<not> detectPlateau xs)"
proof -
  have short: "length xs < 4 \<Longrightarrow> \<not> detectPlateau xs"
    by (simp add: detectPlateau_def)
  have long: "detectPlateau xs \<longleftrightarrow>
         js_less (score_change (xs ! (length xs - 4)) (xs ! (length xs - 3))) (Fin 5) \<and>
         js_less (score_change (xs ! (length xs - 3)) (xs ! (length xs - 2))) (Fin 5) \<and>
         js_less (score_change (xs ! (length xs - 2)) (xs ! (length xs - 1))) (Fin 5)"
    if "4 \<le> length xs"
    using that by (simp add: detectPlateau_def slice_last_4 upt_1_4 Let_def score_change_def)
  have flat: "detectPlateau xs" if m: "map percentage_score xs = [50, 50, 50, 50]"
  proof -
    from m obtain a b c d where xs: "xs = [a, b, c, d]"
      and s: "percentage_score a = 50" "percentage_score b = 50"
        "percentage_score c = 50" "percentage_score d = 50"
      by (auto simp: map_eq_Cons_conv)
    show ?thesis using long s unfolding xs by (simp add: score_change_def)
  qed
  have steep: "\<not> detectPlateau xs" if m: "map percentage_score xs = [50, 40, 30, 20]"
  proof -
    from m obtain a b c d where xs: "xs = [a, b, c, d]"
      and s: "percentage_score a = 50" "percentage_score b = 40"
        "percentage_score c = 30" "percentage_score d = 20"
      by (auto simp: map_eq_Cons_conv)
    show ?thesis using long s unfolding xs by (simp add: score_change_def round_double_Ints)
  qed
  from short long flat steep score_change_exact[of b a] score_change_double[of b a]
  show ?thesis by blast
qed

theorem detectPlateau_last_four_witness:
  "length [assessment_on_day 0 50] < 4 \<and> \<not> detectPlateau [assessment_on_day 0 50] \<and>
   4 \<le> length flat_series \<and>
   map percentage_score flat_series = [50, 50, 50, 50] \<and> detectPlateau flat_series \<and>
   map percentage_score steep_series = [50, 40, 30, 20] \<and> \<not> detectPlateau steep_series \<and>
   is_double (40 - 50) \<and>
   \<not> js_less (score_change (assessment_on_day 0 50) (assessment_on_day 7 40)) (Fin 5)"
  using detectPlateau_last_four [of "[assessment_on_day 0 50]"]
    detectPlateau_last_four [of flat_series]
    detectPlateau_last_four
      [where xs = steep_series and a = "assessment_on_day 0 50" and b = "assessment_on_day 7 40"]
    is_double_Ints [of "40 - 50"]
  by (simp add: flat_series_def steep_series_def assessment_on_day_def score_change_def
      round_double_Ints)

subsection \<open>Trajectory slope\<close>

lemma window_cases:
  assumes "2 \<le> length xs"
  obtains a b where "slice_last 4 xs = [a, b]"
  | a b c where "slice_last 4 xs = [a, b, c]"
  | a b c d where "slice_last 4 xs = [a, b, c, d]"
proof -
  have "length (slice_last 4 xs) = min 4 (length xs)" by (rule length_slice_last)
  with assms consider "length (slice_last 4 xs) = 2" | "length (slice_last 4 xs) = 3"
    | "length (slice_last 4 xs) = 4" by linarith
  then show thesis
  proof cases
    case 1 then show ?thesis using that(1) by (auto simp: numeral_2_eq_2 length_Suc_conv)
  next
    case 2 then show ?thesis using that(2) by (auto simp: numeral_3_eq_3 length_Suc_conv)
  next
    case 3 then show ?thesis using that(3) by (auto simp: eval_nat_numeral length_Suc_conv)
  qed
qed

lemma window_sorted:
  assumes "sorted_wrt P (map f xs)"
  shows "sorted_wrt P (map f (slice_last k xs))"
  using assms by (simp add: slice_last_def drop_map[symmetric] sorted_wrt_drop)

lemma window_set: "set (slice_last k xs) \<subseteq> set xs"
  by (simp add: slice_last_def set_drop_subset)

text \<open>
  The result is a quotient by the elapsed weeks of the window, whatever the scores.
\<close>

lemma slope_shape:
  assumes "2 \<le> length xs"
  shows "\<exists>X. calculateTrajectorySlope xs =
     Some (js_divide X (elapsed_weeks (assessment_date (hd (slice_last 4 xs)))
                          (assessment_date (last (slice_last 4 xs)))))"
proof -
  let ?w = "slice_last 4 xs"
  have len: "2 \<le> length ?w" using assms by (simp add: length_slice_last)
  then have ne: "?w \<noteq> []" by auto
  have "?w ! 0 = hd ?w" "?w ! (length ?w - 1) = last ?w"
    using ne by (simp_all add: hd_conv_nth last_conv_nth)
  with assms len show ?thesis
    by (auto simp: calculateTrajectorySlope_def elapsed_weeks_def Let_def split: prod.splits)
qed

lemma js_divide_by_zero:
  "js_divide X (Fin 0) \<in> {PosInfinity, NegInfinity, NaN}"
  by (cases X) simp_all

lemma elapsed_weeks_same [simp]: "elapsed_weeks t t = Fin 0"
  by (simp add: elapsed_weeks_def)

text \<open>
  When the first and the last record of the window bear the same date the quotient
  by the elapsed weeks is a quotient by zero: the result is never \<open>null\<close>.
\<close>

lemma trajectorySlope_zero_elapsed:
  assumes len: "2 \<le> length xs" and z: "window_elapsed xs = 0"
  shows "calculateTrajectorySlope xs \<in> {Some PosInfinity, Some NegInfinity, Some NaN}"
proof -
  from z have "assessment_date (last (slice_last 4 xs)) = assessment_date (hd (slice_last 4 xs))"
    by (simp add: window_elapsed_def)
  with slope_shape[OF len] obtain X where
    "calculateTrajectorySlope xs = Some (js_divide X (Fin 0))" by auto
  with js_divide_by_zero[of X] show ?thesis by auto
qed

text \<open>
  C2 asks for \<open>null\<close> on zero elapsed time. Two assessments of the same day give
  \<open>-Infinity\<close>, \<open>Infinity\<close> or \<open>NaN\<close>.
\<close>

theorem trajectorySlope_same_day_not_null:
  "calculateTrajectorySlope [assessment_on_day 0 50, assessment_on_day 0 40] = Some NegInfinity \<and>
   calculateTrajectorySlope [assessment_on_day 0 40, assessment_on_day 0 50] = Some PosInfinity \<and>
   calculateTrajectorySlope [assessment_on_day 0 50, assessment_on_day 0 50] = Some NaN"
  by (simp add: calculateTrajectorySlope_def slice_last_def assessment_on_day_def Let_def
      round_double_Ints)

text \<open>
  The slope of \<open>improving_series\<close>: the quotient \<open>-186 / 20\<close> is rounded, then its
  triple; the result is one unit in the last place away from the double nearest to
  \<open>-6.975\<close>.
\<close>

lemma improving_series_slope:
  "calculateTrajectorySlope improving_series
     = Some (Fin (- (7853151850227303 / 1125899906842624)))"
proof -
  have s1: "round_double (- (93 / 10)) = Fin (- (2617717283409101 / 281474976710656))"
      by (rule trans[OF round_double_eval[where e = 3 and k = "- 5235434566818202"]])
         (simp_all add: round_half_even_def)
  have s2: "round_double (- (7853151850227303 / 281474976710656)) = Fin (- (7853151850227303 / 281474976710656))"
      by (rule trans[OF round_double_eval[where e = 4 and k = "- 7853151850227303"]])
         (simp_all add: round_half_even_def)
  have s3: "round_double (- (7853151850227303 / 1125899906842624)) = Fin (- (7853151850227303 / 1125899906842624))"
      by (rule trans[OF round_double_eval[where e = 2 and k = "- 7853151850227303"]])
         (simp_all add: round_half_even_def)
  show ?thesis
    by (simp add: calculateTrajectorySlope_def slice_last_def improving_series_def
        assessment_on_day_def Let_def ms_per_day_def round_double_Ints s1 s2 s3)
qed

text \<open>
  C8 does not hold of the code for all scores. A strictly decreasing series with
  strictly increasing dates whose slope is not negative: the drop of one unit in the
  last place is lost when the two scores are added, and the slope is 0.
\<close>

theorem trajectorySlope_absorbed_drop:
  "sorted_wrt (<) (map assessment_date absorbed_drop_series) \<and>
   sorted_wrt (>) (map percentage_score absorbed_drop_series) \<and>
   calculateTrajectorySlope absorbed_drop_series = Some (Fin 0)"
proof -
  have r1: "round_double (7036874417766401 / 140737488355328) = Fin (7036874417766401 / 140737488355328)"
      by (rule trans[OF round_double_eval[where e = 5 and k = 7036874417766401]])
         (simp_all add: round_half_even_def)
  have r2: "round_double (14073748835532801 / 140737488355328) = Fin 100"
      by (rule trans[OF round_double_eval[where e = 6 and k = 7036874417766400]])
         (simp_all add: round_half_even_def)
  show ?thesis
    by (simp add: calculateTrajectorySlope_def slice_last_def absorbed_drop_series_def
        assessment_on_day_def Let_def ms_per_day_def round_double_Ints r1 r2)
qed

text \<open>
  With stored scores the sums, products and differences of the regression are small
  integers and exact; with times in the range of \<open>Date\<close> and positive elapsed time
  the elapsed weeks are a positive double. Only the quotients are rounded, and
  rounding does not pass the doubles that bound them.
\<close>

lemma round_double_Ints_range:
  "x \<in> \<int> \<Longrightarrow> - 9007199254740992 \<le> x \<Longrightarrow> x \<le> 9007199254740992 \<Longrightarrow> round_double x = Fin x"
  by (rule round_double_Ints) simp_all

lemma elapsed_weeks_fold:
  "js_divide (js_divide (round_double (real_of_int l - real_of_int f)) (Fin 86400000)) (Fin 7)
     = elapsed_weeks f l"
  by (simp add: elapsed_weeks_def)

lemma round_double_pow_between:
  assumes "- 1074 \<le> i" "i < 1024" "- 1074 \<le> j" "j < 1024" "2 powi i \<le> x" "x \<le> 2 powi j"
  shows "\<exists>r. round_double x = Fin r \<and> 2 powi i \<le> r \<and> r \<le> 2 powi j"
  using assms by (intro round_double_between is_double_power)

lemma round_double_neg_pow_between:
  assumes "- 1074 \<le> i" "i < 1024" "- 1074 \<le> j" "j < 1024"
    "- (2 powi j) \<le> x" "x \<le> - (2 powi i)"
  shows "\<exists>r. round_double x = Fin r \<and> - (2 powi j) \<le> r \<and> r \<le> - (2 powi i)"
  using assms by (intro round_double_between is_double_minus is_double_power)

lemma elapsed_weeks_bounds:
  assumes "valid_time f" "valid_time l" "f < l"
  shows "\<exists>w. elapsed_weeks f l = Fin w \<and> 2 powi (- 30) \<le> w \<and> w \<le> 2 powi 26"
proof -
  have "1 \<le> l - f" "l - f \<le> 17280000000000000"
    using assms by (simp_all add: valid_time_def)
  then have "real_of_int 1 \<le> real_of_int (l - f)"
    "real_of_int (l - f) \<le> real_of_int 17280000000000000"
    by (simp_all only: of_int_le_iff)
  then have "2 powi 0 \<le> real_of_int l - real_of_int f"
    "real_of_int l - real_of_int f \<le> 2 powi 54" by simp_all
  then have "\<exists>r. round_double (real_of_int l - real_of_int f) = Fin r \<and>
      2 powi 0 \<le> r \<and> r \<le> 2 powi 54"
    by (intro round_double_pow_between) simp_all
  then obtain d where d: "round_double (real_of_int l - real_of_int f) = Fin d"
    "2 powi 0 \<le> d" "d \<le> 2 powi 54" by blast
  have "2 powi (- 27) \<le> d / 86400000" "d / 86400000 \<le> 2 powi 28"
    using d(2,3) by simp_all
  then have "\<exists>r. round_double (d / 86400000) = Fin r \<and> 2 powi (- 27) \<le> r \<and> r \<le> 2 powi 28"
    by (intro round_double_pow_between) simp_all
  then obtain d1 where d1: "round_double (d / 86400000) = Fin d1"
    "2 powi (- 27) \<le> d1" "d1 \<le> 2 powi 28" by blast
  have "2 powi (- 30) \<le> d1 / 7" "d1 / 7 \<le> 2 powi 26"
    using d1(2,3) by simp_all
  then have "\<exists>r. round_double (d1 / 7) = Fin r \<and> 2 powi (- 30) \<le> r \<and> r \<le> 2 powi 26"
    by (intro round_double_pow_between) simp_all
  then obtain w where w: "round_double (d1 / 7) = Fin w" "2 powi (- 30) \<le> w" "w \<le> 2 powi 26"
    by blast
  have "elapsed_weeks f l = Fin w"
    using d(1) d1(1) w(1) by (simp add: elapsed_weeks_def)
  with w(2,3) show ?thesis by blast
qed

lemma quotient_negative:
  assumes "- 512 \<le> s" "s \<le> - 1" "2 powi (- 30) \<le> w" "w \<le> 2 powi 26"
  shows "\<exists>v. js_divide (Fin s) (Fin w) = Fin v \<and> v < 0"
proof -
  have w: "0 < w" using assms(3) by simp
  have "s / w \<le> - 1 / w" using assms(2) w by (intro divide_right_mono) simp_all
  also have "- 1 / w \<le> - (2 powi (- 26))" using assms(4) w by (simp add: field_simps)
  finally have hi: "s / w \<le> - (2 powi (- 26))" .
  have "- (2 powi 39) \<le> - 512 / w" using assms(3) w by (simp add: field_simps)
  also have "- 512 / w \<le> s / w" using assms(1) w by (intro divide_right_mono) simp_all
  finally have lo: "- (2 powi 39) \<le> s / w" .
  from lo hi have "\<exists>r. round_double (s / w) = Fin r \<and> - (2 powi 39) \<le> r \<and> r \<le> - (2 powi (- 26))"
    by (intro round_double_neg_pow_between) simp_all
  then obtain v where v: "round_double (s / w) = Fin v" "v \<le> - (2 powi (- 26))" by blast
  from v(2) have "v < 0" by simp
  with v(1) w show ?thesis by simp
qed

lemma quotient_positive:
  assumes "1 \<le> s" "s \<le> 512" "2 powi (- 30) \<le> w" "w \<le> 2 powi 26"
  shows "\<exists>v. js_divide (Fin s) (Fin w) = Fin v \<and> 0 < v"
proof -
  have w: "0 < w" using assms(3) by simp
  have "2 powi (- 26) \<le> 1 / w" using assms(4) w by (simp add: field_simps)
  also have "1 / w \<le> s / w" using assms(1) w by (intro divide_right_mono) simp_all
  finally have lo: "2 powi (- 26) \<le> s / w" .
  have "s / w \<le> 512 / w" using assms(2) w by (intro divide_right_mono) simp_all
  also have "512 / w \<le> 2 powi 39" using assms(3) w by (simp add: field_simps)
  finally have hi: "s / w \<le> 2 powi 39" .
  from lo hi have "\<exists>r. round_double (s / w) = Fin r \<and> 2 powi (- 26) \<le> r \<and> r \<le> 2 powi 39"
    by (intro round_double_pow_between) simp_all
  then obtain v where v: "round_double (s / w) = Fin v" "2 powi (- 26) \<le> v" by blast
  from v(2) have "0 < v" by simp
  with v(1) w show ?thesis by simp
qed

lemma scaled_negative:
  assumes "- 128 \<le> q" "q \<le> - 1" "1 \<le> m" "m \<le> 3"
  shows "\<exists>s. js_times (round_double q) (Fin m) = Fin s \<and> - 512 \<le> s \<and> s \<le> - 1"
proof -
  have "- (2 powi 7) \<le> q" "q \<le> - (2 powi 0)" using assms by simp_all
  then have "\<exists>r. round_double q = Fin r \<and> - (2 powi 7) \<le> r \<and> r \<le> - (2 powi 0)"
    by (intro round_double_neg_pow_between) simp_all
  then obtain r where r: "round_double q = Fin r" "- 128 \<le> r" "r \<le> - 1" by auto
  have "r * m \<le> r * 1" using r(3) assms(3) by (intro mult_left_mono_neg) simp_all
  then have "r * m \<le> r" by (simp only: mult_1_right)
  with r(3) have "r * m \<le> - 1" by linarith
  then have hi: "r * m \<le> - (2 powi 0)" by simp
  have "(- 128) * m \<le> r * m" using r(2) assms(3) by (intro mult_right_mono) simp_all
  with assms(4) have "- 512 \<le> r * m" by linarith
  then have lo: "- (2 powi 9) \<le> r * m" by simp
  from lo hi have "\<exists>s. round_double (r * m) = Fin s \<and> - (2 powi 9) \<le> s \<and> s \<le> - (2 powi 0)"
    by (intro round_double_neg_pow_between) simp_all
  then show ?thesis using r(1) by auto
qed

lemma scaled_positive:
  assumes "1 \<le> q" "q \<le> 128" "1 \<le> m" "m \<le> 3"
  shows "\<exists>s. js_times (round_double q) (Fin m) = Fin s \<and> 1 \<le> s \<and> s \<le> 512"
proof -
  have "2 powi 0 \<le> q" "q \<le> 2 powi 7" using assms by simp_all
  then have "\<exists>r. round_double q = Fin r \<and> 2 powi 0 \<le> r \<and> r \<le> 2 powi 7"
    by (intro round_double_pow_between) simp_all
  then obtain r where r: "round_double q = Fin r" "1 \<le> r" "r \<le> 128" by auto
  have "r * 1 \<le> r * m" using r(2) assms(3) by (intro mult_left_mono) simp_all
  then have "r \<le> r * m" by (simp only: mult_1_right)
  with r(2) have "1 \<le> r * m" by linarith
  then have lo: "2 powi 0 \<le> r * m" by simp
  have "r * m \<le> 128 * m" using r(3) assms(3) by (intro mult_right_mono) simp_all
  with assms(4) have "r * m \<le> 512" by linarith
  then have hi: "r * m \<le> 2 powi 9" by simp
  from lo hi have "\<exists>s. round_double (r * m) = Fin s \<and> 2 powi 0 \<le> s \<and> s \<le> 2 powi 9"
    by (intro round_double_pow_between) simp_all
  then show ?thesis using r(1) by auto
qed

lemma Ints_less_step:
  fixes x y :: real
  assumes "x \<in> \<int>" "y \<in> \<int>" "x < y"
  shows "x + 1 \<le> y"
proof -
  from assms(1,2) obtain i j where "x = of_int i" "y = of_int j" by (auto elim!: Ints_cases)
  with assms(3) have "i < j" by simp
  then have "i + 1 \<le> j" by simp
  then have "real_of_int (i + 1) \<le> real_of_int j" by (simp only: of_int_le_iff)
  with \<open>x = of_int i\<close> \<open>y = of_int j\<close> show ?thesis by simp
qed

lemma stored_scoreD:
  "stored_score s \<Longrightarrow> s \<in> \<int>" "stored_score s \<Longrightarrow> 0 \<le> s" "stored_score s \<Longrightarrow> s \<le> 100"
  by (simp_all add: stored_score_def)

lemma slope_two_stored:
  assumes "2 \<le> length xs" "slice_last 4 xs = [a, b]"
    "stored_score (percentage_score a)" "stored_score (percentage_score b)"
  shows "calculateTrajectorySlope xs =
     Some (js_divide (Fin (percentage_score b - percentage_score a))
             (elapsed_weeks (assessment_date a) (assessment_date b)))"
  using assms(1,2) assms(3,4)[THEN stored_scoreD(1)] assms(3,4)[THEN stored_scoreD(2)]
    assms(3,4)[THEN stored_scoreD(3)]
  by (simp add: calculateTrajectorySlope_def Let_def round_double_Ints_range elapsed_weeks_fold)

lemma slope_three_stored:
  assumes "2 \<le> length xs" "slice_last 4 xs = [a, b, c]"
    "stored_score (percentage_score a)" "stored_score (percentage_score b)"
    "stored_score (percentage_score c)"
  shows "calculateTrajectorySlope xs =
     Some (js_divide
             (js_times (round_double ((3 * percentage_score c - 3 * percentage_score a) / 6))
                (Fin 2))
             (elapsed_weeks (assessment_date a) (assessment_date c)))"
  using assms(1,2) assms(3-5)[THEN stored_scoreD(1)] assms(3-5)[THEN stored_scoreD(2)]
    assms(3-5)[THEN stored_scoreD(3)]
  by (simp add: calculateTrajectorySlope_def Let_def round_double_Ints_range elapsed_weeks_fold)

lemma slope_four_stored:
  assumes "2 \<le> length xs" "slice_last 4 xs = [a, b, c, d]"
    "stored_score (percentage_score a)" "stored_score (percentage_score b)"
    "stored_score (percentage_score c)" "stored_score (percentage_score d)"
  shows "calculateTrajectorySlope xs =
     Some (js_divide
             (js_times
                (round_double
                   ((2 * percentage_score c + (6 * percentage_score d - 6 * percentage_score a)
                     - 2 * percentage_score b) / 20))
                (Fin 3))
             (elapsed_weeks (assessment_date a) (assessment_date d)))"
  using assms(1,2) assms(3-6)[THEN stored_scoreD(1)] assms(3-6)[THEN stored_scoreD(2)]
    assms(3-6)[THEN stored_scoreD(3)]
  by (simp add: calculateTrajectorySlope_def Let_def round_double_Ints_range elapsed_weeks_fold)


lemma sign_of_per_week:
  assumes shape: "calculateTrajectorySlope xs = Some (js_divide S (elapsed_weeks f l))"
    and t: "valid_time f" "valid_time l" "f < l"
    and neg: "D \<Longrightarrow> \<exists>s. S = Fin s \<and> - 512 \<le> s \<and> s \<le> - 1"
    and pos: "I \<Longrightarrow> \<exists>s. S = Fin s \<and> 1 \<le> s \<and> s \<le> 512"
  shows "(D \<longrightarrow> (\<exists>v. calculateTrajectorySlope xs = Some (Fin v) \<and> v < 0)) \<and>
         (I \<longrightarrow> (\<exists>v. calculateTrajectorySlope xs = Some (Fin v) \<and> 0 < v))"
proof -
  from elapsed_weeks_bounds[OF t] obtain w where
    w: "elapsed_weeks f l = Fin w" "2 powi (- 30) \<le> w" "w \<le> 2 powi 26" by blast
  have "\<exists>v. calculateTrajectorySlope xs = Some (Fin v) \<and> v < 0" if D
  proof -
    from neg[OF that] obtain s where s: "S = Fin s" "- 512 \<le> s" "s \<le> - 1" by blast
    from quotient_negative[OF s(2,3) w(2,3)] show ?thesis by (simp add: shape s(1) w(1))
  qed
  moreover have "\<exists>v. calculateTrajectorySlope xs = Some (Fin v) \<and> 0 < v" if I
  proof -
    from pos[OF that] obtain s where s: "S = Fin s" "1 \<le> s" "s \<le> 512" by blast
    from quotient_positive[OF s(2,3) w(2,3)] show ?thesis by (simp add: shape s(1) w(1))
  qed
  ultimately show ?thesis by blast
qed

text \<open>
  C8, as the code has it. For a series of at least two assessments with stored scores,
  strictly increasing dates and times in the range of \<open>Date\<close>, the window has positive
  elapsed time; strictly decreasing scores give a negative slope per week and strictly
  increasing scores a positive one.
\<close>

theorem trajectorySlope_sign_stored:
  assumes len: "2 \<le> length xs"
    and dates: "sorted_wrt (<) (map assessment_date xs)"
    and times: "\<forall>a \<in> set xs. valid_time (assessment_date a)"
    and scores: "\<forall>a \<in> set xs. stored_score (percentage_score a)"
  shows "0 < window_elapsed xs \<and>
    (sorted_wrt (>) (map percentage_score xs) \<longrightarrow>
       (\<exists>v. calculateTrajectorySlope xs = Some (Fin v) \<and> v < 0)) \<and>
    (sorted_wrt (<) (map percentage_score xs) \<longrightarrow>
       (\<exists>v. calculateTrajectorySlope xs = Some (Fin v) \<and> 0 < v))"
proof -
  have d: "sorted_wrt (<) (map assessment_date (slice_last 4 xs))"
    using dates by (rule window_sorted)
  have dec: "sorted_wrt (>) (map percentage_score (slice_last 4 xs))"
    if "sorted_wrt (>) (map percentage_score xs)" using that by (rule window_sorted)
  have inc: "sorted_wrt (<) (map percentage_score (slice_last 4 xs))"
    if "sorted_wrt (<) (map percentage_score xs)" using that by (rule window_sorted)
  have st: "stored_score (percentage_score a)" "valid_time (assessment_date a)"
    if "a \<in> set (slice_last 4 xs)" for a
    using that window_set[of 4 xs] times scores by auto
  note D = stored_scoreD Ints_less_step
  from len show ?thesis
  proof (cases rule: window_cases)
    case (1 a b)
    have m: "a \<in> set (slice_last 4 xs)" "b \<in> set (slice_last 4 xs)" by (simp_all add: 1)
    have lt: "assessment_date a < assessment_date b" using d unfolding 1 by simp
    have el: "0 < window_elapsed xs" using lt by (simp add: window_elapsed_def 1)
    have "\<exists>s. Fin (percentage_score b - percentage_score a) = Fin s \<and> - 512 \<le> s \<and> s \<le> - 1"
      if "sorted_wrt (>) (map percentage_score xs)"
      using dec[OF that] D(1-3)[OF st(1)[OF m(1)]] D(1-3)[OF st(1)[OF m(2)]]
        D(4)[of "percentage_score b" "percentage_score a"]
      unfolding 1 by simp
    moreover have "\<exists>s. Fin (percentage_score b - percentage_score a) = Fin s \<and> 1 \<le> s \<and> s \<le> 512"
      if "sorted_wrt (<) (map percentage_score xs)"
      using inc[OF that] D(1-3)[OF st(1)[OF m(1)]] D(1-3)[OF st(1)[OF m(2)]]
        D(4)[of "percentage_score a" "percentage_score b"]
      unfolding 1 by simp
    ultimately show ?thesis
      using sign_of_per_week[OF slope_two_stored[OF len 1 st(1)[OF m(1)] st(1)[OF m(2)]]
          st(2)[OF m(1)] st(2)[OF m(2)] lt] el
      by blast
  next
    case (2 a b c)
    have m: "a \<in> set (slice_last 4 xs)" "b \<in> set (slice_last 4 xs)"
      "c \<in> set (slice_last 4 xs)" by (simp_all add: 2)
    have lt: "assessment_date a < assessment_date c" using d unfolding 2 by simp
    have el: "0 < window_elapsed xs" using lt by (simp add: window_elapsed_def 2)
    let ?q = "(3 * percentage_score c - 3 * percentage_score a) / 6"
    have "\<exists>s. js_times (round_double ?q) (Fin 2) = Fin s \<and> - 512 \<le> s \<and> s \<le> - 1"
      if "sorted_wrt (>) (map percentage_score xs)"
    proof (rule scaled_negative)
      show "- 128 \<le> ?q" "?q \<le> - 1"
        using dec[OF that] D(1-3)[OF st(1)[OF m(1)]] D(1-3)[OF st(1)[OF m(2)]]
          D(1-3)[OF st(1)[OF m(3)]]
          D(4)[of "percentage_score b" "percentage_score a"]
          D(4)[of "percentage_score c" "percentage_score b"]
        unfolding 2 by simp_all
    qed simp_all
    moreover have "\<exists>s. js_times (round_double ?q) (Fin 2) = Fin s \<and> 1 \<le> s \<and> s \<le> 512"
      if "sorted_wrt (<) (map percentage_score xs)"
    proof (rule scaled_positive)
      show "1 \<le> ?q" "?q \<le> 128"
        using inc[OF that] D(1-3)[OF st(1)[OF m(1)]] D(1-3)[OF st(1)[OF m(2)]]
          D(1-3)[OF st(1)[OF m(3)]]
          D(4)[of "percentage_score a" "percentage_score b"]
          D(4)[of "percentage_score b" "percentage_score c"]
        unfolding 2 by simp_all
    qed simp_all
    ultimately show ?thesis
      using sign_of_per_week
          [OF slope_three_stored[OF len 2 st(1)[OF m(1)] st(1)[OF m(2)] st(1)[OF m(3)]]
            st(2)[OF m(1)] st(2)[OF m(3)] lt] el
      by blast
  next
    case (3 a b c e)
    have m: "a \<in> set (slice_last 4 xs)" "b \<in> set (slice_last 4 xs)"
      "c \<in> set (slice_last 4 xs)" "e \<in> set (slice_last 4 xs)" by (simp_all add: 3)
    have lt: "assessment_date a < assessment_date e" using d unfolding 3 by simp
    have el: "0 < window_elapsed xs" using lt by (simp add: window_elapsed_def 3)
    let ?q = "(2 * percentage_score c + (6 * percentage_score e - 6 * percentage_score a)
                - 2 * percentage_score b) / 20"
    have "\<exists>s. js_times (round_double ?q) (Fin 3) = Fin s \<and> - 512 \<le> s \<and> s \<le> - 1"
      if "sorted_wrt (>) (map percentage_score xs)"
    proof (rule scaled_negative)
      show "- 128 \<le> ?q" "?q \<le> - 1"
        using dec[OF that] D(1-3)[OF st(1)[OF m(1)]] D(1-3)[OF st(1)[OF m(2)]]
          D(1-3)[OF st(1)[OF m(3)]] D(1-3)[OF st(1)[OF m(4)]]
          D(4)[of "percentage_score b" "percentage_score a"]
          D(4)[of "percentage_score c" "percentage_score b"]
          D(4)[of "percentage_score e" "percentage_score c"]
        unfolding 3 by simp_all
    qed simp_all
    moreover have "\<exists>s. js_times (round_double ?q) (Fin 3) = Fin s \<and> 1 \<le> s \<and> s \<le> 512"
      if "sorted_wrt (<) (map percentage_score xs)"
    proof (rule scaled_positive)
      show "1 \<le> ?q" "?q \<le> 128"
        using inc[OF that] D(1-3)[OF st(1)[OF m(1)]] D(1-3)[OF st(1)[OF m(2)]]
          D(1-3)[OF st(1)[OF m(3)]] D(1-3)[OF st(1)[OF m(4)]]
          D(4)[of "percentage_score a" "percentage_score b"]
          D(4)[of "percentage_score b" "percentage_score c"]
          D(4)[of "percentage_score c" "percentage_score e"]
        unfolding 3 by simp_all
    qed simp_all
    ultimately show ?thesis
      using sign_of_per_week
          [OF slope_four_stored[OF len 3 st(1)[OF m(1)] st(1)[OF m(2)] st(1)[OF m(3)]
              st(1)[OF m(4)]]
            st(2)[OF m(1)] st(2)[OF m(4)] lt] el
      by blast
  qed
qed

theorem trajectorySlope_sign_stored_witness:
  "2 \<le> length steep_series \<and> sorted_wrt (<) (map assessment_date steep_series) \<and>
   list_all (\<lambda>a. valid_time (assessment_date a)) steep_series \<and>
   list_all (\<lambda>a. stored_score (percentage_score a)) steep_series \<and>
   sorted_wrt (>) (map percentage_score steep_series) \<and>
   calculateTrajectorySlope steep_series = Some (Fin (- 10)) \<and>
   2 \<le> length worsening_series \<and> sorted_wrt (<) (map assessment_date worsening_series) \<and>
   list_all (\<lambda>a. valid_time (assessment_date a)) worsening_series \<and>
   list_all (\<lambda>a. stored_score (percentage_score a)) worsening_series \<and>
   sorted_wrt (<) (map percentage_score worsening_series) \<and>
   calculateTrajectorySlope worsening_series = Some (Fin 6)"
  using trajectorySlope_sign_stored [of steep_series]
    trajectorySlope_sign_stored [of worsening_series]
  by (simp add: calculateTrajectorySlope_def slice_last_def steep_series_def
      worsening_series_def assessment_on_day_def Let_def ms_per_day_def valid_time_def
      stored_score_def round_double_Ints)

subsection \<open>Pain and function correlation\<close>


































subsection \<open>Fetching, persisting and the snapshot\<close>

lemma saveAnalytics_caught:
  "\<exists>st'. saveAnalytics outcome now st p r = (Inr (), st') \<and>
         odi_assessments st' = odi_assessments st \<and>
         vas_pain_scores st' = vas_pain_scores st"
  by (cases outcome) (simp_all add: saveAnalytics_def upsert_analytics_metrics_def)

lemma calculateAnalytics_cases:
  "\<exists>st'. calculateAnalytics outcome now st p =
           (case fetchODIAssessments st p of
              Inl e \<Rightarrow> Inl e
            | Inr odi \<Rightarrow>
                (case fetchVASScores st p of
                   Inl e \<Rightarrow> Inl e
                 | Inr vas \<Rightarrow> Inr (snapshot now odi vas)), st') \<and>
         odi_assessments st' = odi_assessments st \<and>
         vas_pain_scores st' = vas_pain_scores st"
proof (cases "fetchODIAssessments st p")
  case (Inl e)
  then show ?thesis by (simp add: calculateAnalytics_def)
next
  case odi: (Inr odi)
  show ?thesis
  proof (cases "fetchVASScores st p")
    case (Inl e)
    with odi show ?thesis by (simp add: calculateAnalytics_def)
  next
    case (Inr vas)
    obtain st' where "saveAnalytics outcome now st p (snapshot now odi vas) = (Inr (), st')"
      "odi_assessments st' = odi_assessments st" "vas_pain_scores st' = vas_pain_scores st"
      using saveAnalytics_caught by blast
    with odi Inr show ?thesis
      by (simp add: calculateAnalytics_def snapshot_def)
  qed
qed

lemma calculateAnalytics_result:
  "fst (calculateAnalytics outcome now st p) =
     (case fetchODIAssessments st p of
        Inl e \<Rightarrow> Inl e
      | Inr odi \<Rightarrow>
          (case fetchVASScores st p of Inl e \<Rightarrow> Inl e | Inr vas \<Rightarrow> Inr (snapshot now odi vas)))"
  using calculateAnalytics_cases[of outcome now st p] by auto

lemma calculateAnalytics_series:
  "odi_assessments (snd (calculateAnalytics outcome now st p)) = odi_assessments st \<and>
   vas_pain_scores (snd (calculateAnalytics outcome now st p)) = vas_pain_scores st"
  using calculateAnalytics_cases[of outcome now st p] by auto

text \<open>
  C9. The result of \<open>calculateAnalytics\<close> is the snapshot of the two fetched series
  and the clock. \<open>saveAnalytics\<close> never fails, whatever the upsert does; the result is
  the same for every outcome of the upsert; and a second call, made in the store the
  first call left behind, returns the same result.
\<close>

theorem calculateAnalytics_pure_of_series:
  "(fetchODIAssessments st p = Inr odi \<and> fetchVASScores st p = Inr vas \<longrightarrow>
      fst (calculateAnalytics outcome now st p) = Inr (snapshot now odi vas)) \<and>
   fst (saveAnalytics outcome now st p r) = Inr () \<and>
   fst (calculateAnalytics outcome' now st p) = fst (calculateAnalytics outcome now st p) \<and>
   fst (calculateAnalytics outcome' now (snd (calculateAnalytics outcome now st p)) p)
     = fst (calculateAnalytics outcome now st p)"
proof (intro conjI impI)
  assume "fetchODIAssessments st p = Inr odi \<and> fetchVASScores st p = Inr vas"
  then show "fst (calculateAnalytics outcome now st p) = Inr (snapshot now odi vas)"
    by (simp add: calculateAnalytics_result)
next
  show "fst (saveAnalytics outcome now st p r) = Inr ()"
    using saveAnalytics_caught[of outcome now st p r] by auto
next
  show "fst (calculateAnalytics outcome' now st p) = fst (calculateAnalytics outcome now st p)"
    by (simp add: calculateAnalytics_result)
next
  show "fst (calculateAnalytics outcome' now (snd (calculateAnalytics outcome now st p)) p)
     = fst (calculateAnalytics outcome now st p)"
  proof -
    let ?st' = "snd (calculateAnalytics outcome now st p)"
    have same: "fetchODIAssessments ?st' p = fetchODIAssessments st p"
      "fetchVASScores ?st' p = fetchVASScores st p"
      using calculateAnalytics_series[of outcome now st p]
      by (simp_all add: fetchODIAssessments_def fetchVASScores_def)
    show ?thesis
      unfolding calculateAnalytics_result[of outcome' now ?st' p] same
      by (rule calculateAnalytics_result[symmetric])
  qed
qed

theorem calculateAnalytics_pure_of_series_witness:
  "fetchODIAssessments sample_store ''patient'' = Inr improving_series \<and>
   fetchVASScores sample_store ''patient'' = Inr [reading_on_day 0 5] \<and>
   fst (calculateAnalytics (Rejected (PostgrestError ''write failed'')) (30 * ms_per_day)
          sample_store ''patient'')
     = Inr (snapshot (30 * ms_per_day) improving_series [reading_on_day 0 5])"
  using calculateAnalytics_pure_of_series
    [of sample_store "''patient''" improving_series "[reading_on_day 0 5]"
        "Rejected (PostgrestError ''write failed'')" "30 * ms_per_day"]
  by (simp add: sample_store_def fetchODIAssessments_def fetchVASScores_def)

text \<open>
  C3, as the code has it. A failed fetch of the assessments fails the whole call with
  that error. A failed fetch of the pain scores does not: \<open>fetchVASScores\<close> returns an
  empty series instead and the call returns the snapshot computed with it.
\<close>

theorem calculateAnalytics_fetch_errors:
  "(error (odi_assessments st p) = Some e \<longrightarrow>
      fst (calculateAnalytics outcome now st p) = Inl e) \<and>
   (error (vas_pain_scores st p) = Some err \<and> fetchODIAssessments st p = Inr odi \<longrightarrow>
      fst (calculateAnalytics outcome now st p) = Inr (snapshot now odi []))"
  by (auto simp: calculateAnalytics_result fetchODIAssessments_def fetchVASScores_def Let_def)

theorem calculateAnalytics_fetch_errors_witness:
  "error (odi_assessments assessment_fetch_failing_store ''patient'') = Some fetch_failed \<and>
   fst (calculateAnalytics Written 0 assessment_fetch_failing_store ''patient'')
     = Inl fetch_failed \<and>
   error (vas_pain_scores pain_fetch_failing_store ''patient'') = Some fetch_failed \<and>
   fetchODIAssessments pain_fetch_failing_store ''patient'' = Inr improving_series \<and>
   fst (calculateAnalytics Written 0 pain_fetch_failing_store ''patient'')
     = Inr (snapshot 0 improving_series [])"
  using calculateAnalytics_fetch_errors
    [of assessment_fetch_failing_store "''patient''" fetch_failed Written 0]
    calculateAnalytics_fetch_errors
    [where st = pain_fetch_failing_store and p = "''patient''" and err = fetch_failed
       and odi = improving_series and outcome = Written and now = 0]
  by (simp add: assessment_fetch_failing_store_def pain_fetch_failing_store_def
      sample_store_def fetchODIAssessments_def)

text \<open>
  With the pain query failing and the assessments fetched, the call succeeds; its
  correlation field is \<open>null\<close>.
\<close>

theorem calculateAnalytics_pain_fetch_error_not_propagated:
  "error (vas_pain_scores pain_fetch_failing_store ''patient'') = Some fetch_failed \<and>
   fst (calculateAnalytics Written (30 * ms_per_day) pain_fetch_failing_store ''patient'')
     = Inr \<lparr>timeToMCID = Some 21, trajectorySlope = Some (Fin (- (7853151850227303 / 1125899906842624))),
            painFunctionCorrelation = None, weeksSinceBaseline = 4, plateauDetected = False\<rparr>"
proof -
  have "calculateTimeToMCID improving_series = Some 21"
    by (simp add: calculateTimeToMCID_def find_baseline_def truthy_def improving_series_def
        assessment_on_day_def ODI_MCID_THRESHOLD_def ms_per_day_def round_double_Ints)
  moreover have "calculatePainFunctionCorrelation improving_series [] = None"
    by (simp add: calculatePainFunctionCorrelation_def)
  moreover have "calculateWeeksSinceBaseline (30 * ms_per_day) improving_series = 4"
    by (simp add: calculateWeeksSinceBaseline_def find_baseline_def truthy_def
        improving_series_def assessment_on_day_def ms_per_day_def)
  moreover have "\<not> detectPlateau improving_series"
    by (simp add: detectPlateau_def slice_last_def improving_series_def assessment_on_day_def
        upt_1_4 Let_def round_double_Ints)
  ultimately show ?thesis
    using improving_series_slope
    by (simp add: calculateAnalytics_def saveAnalytics_def upsert_analytics_metrics_def
        fetchODIAssessments_def fetchVASScores_def pain_fetch_failing_store_def
        sample_store_def Let_def)
qed

subsection \<open>Benchmark comparison\<close>

lemma select_no_row:
  assumes "\<forall>r \<in> set (population_benchmarks st).
             \<not> (treatment_type r = t \<and> weeks_post_treatment r \<le> w)"
  shows "data (select_benchmark st t w) = None"
proof -
  have "filter (\<lambda>r. weeks_post_treatment r \<le> w)
          (filter (\<lambda>r. treatment_type r = t) (population_benchmarks st)) = []"
    using assms by (auto simp: filter_empty_conv)
  then show ?thesis
    by (simp add: select_benchmark_def order_weeks_descending_def maybeSingle_def
        split: option.splits)
qed

lemma sorted_last_greatest:
  assumes "sorted (map f ys)" "y \<in> set ys"
  shows "f y \<le> f (last ys)"
proof -
  from assms(2) obtain i where i: "i < length ys" "ys ! i = y" by (auto simp: in_set_conv_nth)
  then have ne: "ys \<noteq> []" by auto
  have "map f ys ! i \<le> map f ys ! (length ys - 1)"
    using assms(1) i(1) by (intro sorted_nth_mono) simp_all
  then show ?thesis using i ne by (simp add: last_conv_nth)
qed

text \<open>
  The row that the query yields is a row of the treatment type, at or below the given
  week, and no such row of the table has a greater week.
\<close>

lemma select_benchmark_greatest:
  assumes sel: "select_benchmark st t w = \<lparr>data = Some row, error = None\<rparr>"
  shows "row \<in> set (population_benchmarks st) \<and> treatment_type row = t \<and>
         weeks_post_treatment row \<le> w \<and>
         (\<forall>r \<in> set (population_benchmarks st).
            treatment_type r = t \<and> weeks_post_treatment r \<le> w \<longrightarrow>
              weeks_post_treatment r \<le> weeks_post_treatment row)"
proof -
  define ms where "ms = filter (\<lambda>r. weeks_post_treatment r \<le> w)
      (filter (\<lambda>r. treatment_type r = t) (population_benchmarks st))"
  define ys where "ys = sort_key weeks_post_treatment ms"
  have "population_benchmarks_error st = None"
    using sel by (auto simp: select_benchmark_def split: option.splits)
  then have "maybeSingle (take 1 (rev ys)) = Some row"
    using sel by (simp add: select_benchmark_def order_weeks_descending_def ys_def ms_def)
  then obtain zs where "rev ys = row # zs"
    by (cases "rev ys") (auto simp: maybeSingle_def)
  then have "ys = rev zs @ [row]" by (simp add: rev_eq_Cons_iff)
  then have row: "row = last ys" and "row \<in> set ys" by simp_all
  have set: "set ys = set ms" by (simp add: ys_def)
  have "row \<in> set ms" using \<open>row \<in> set ys\<close> set by simp
  moreover have "weeks_post_treatment r \<le> weeks_post_treatment row" if "r \<in> set ms" for r
    unfolding row using that set by (intro sorted_last_greatest) (simp_all add: ys_def)
  ultimately show ?thesis by (auto simp: ms_def)
qed

lemma benchmark_of_row:
  assumes "select_benchmark st t w = \<lparr>data = Some row, error = None\<rparr>"
  shows "getBenchmarkComparison st score t w =
     Some \<lparr>mean = mean_odi_score row,
           percentile = (if score \<le> percentile_25 row then 25
                         else if score \<le> percentile_50 row then 50
                         else if score \<le> percentile_75 row then 75 else 90),
           interpretation_label =
             (if score \<le> percentile_25 row then ''excellent''
              else if score \<le> percentile_50 row then ''above_average''
              else if score \<le> percentile_75 row then ''average'' else ''below_average'')\<rparr>"
  unfolding getBenchmarkComparison_def assms by (simp add: Let_def)


text \<open>
  C7. For the row that the query matched, with its percentile bands in ascending
  order: a score up to p25 gives percentile 25, \<open>excellent\<close>; above p25 and up to p50
  gives 50, \<open>above_average\<close>; above p50 and up to p75 gives 75, \<open>average\<close>; above p75
  gives 90, \<open>below_average\<close>. The first two buckets need no order of the bands. When
  the table has no row of the treatment type at or below the given week the result
  is \<open>null\<close>.
\<close>

theorem getBenchmarkComparison_buckets:
  "(select_benchmark st t w = \<lparr>data = Some row, error = None\<rparr> \<longrightarrow>
      (score \<le> percentile_25 row \<longrightarrow>
         getBenchmarkComparison st score t w =
           Some \<lparr>mean = mean_odi_score row, percentile = 25, interpretation_label = ''excellent''\<rparr>) \<and>
      (percentile_25 row < score \<and> score \<le> percentile_50 row \<longrightarrow>
         getBenchmarkComparison st score t w =
           Some \<lparr>mean = mean_odi_score row, percentile = 50,
                 interpretation_label = ''above_average''\<rparr>) \<and>
      (percentile_25 row \<le> percentile_50 row \<and>
       percentile_50 row < score \<and> score \<le> percentile_75 row \<longrightarrow>
         getBenchmarkComparison st score t w =
           Some \<lparr>mean = mean_odi_score row, percentile = 75, interpretation_label = ''average''\<rparr>) \<and>
      (percentile_25 row \<le> percentile_50 row \<and> percentile_50 row \<le> percentile_75 row \<and>
       percentile_75 row < score \<longrightarrow>
         getBenchmarkComparison st score t w =
           Some \<lparr>mean = mean_odi_score row, percentile = 90,
                 interpretation_label = ''below_average''\<rparr>)) \<and>
   ((\<forall>r \<in> set (population_benchmarks st).
        \<not> (treatment_type r = t \<and> weeks_post_treatment r \<le> w)) \<longrightarrow>
      getBenchmarkComparison st score t w = None)"
proof (intro conjI impI)
  assume "\<forall>r \<in> set (population_benchmarks st).
        \<not> (treatment_type r = t \<and> weeks_post_treatment r \<le> w)"
  then have "data (select_benchmark st t w) = None" by (rule select_no_row)
  then show "getBenchmarkComparison st score t w = None"
    by (simp add: getBenchmarkComparison_def Let_def)
qed (simp_all add: benchmark_of_row)

theorem getBenchmarkComparison_buckets_witness:
  "select_benchmark sample_store post_surgery 24
     = \<lparr>data = Some (benchmark_row 24 18 7.8 13 18 24 225), error = None\<rparr> \<and>
   getBenchmarkComparison sample_store 18 post_surgery 24
     = Some \<lparr>mean = 18, percentile = 50, interpretation_label = ''above_average''\<rparr> \<and>
   getBenchmarkComparison sample_store 30 post_surgery 24
     = Some \<lparr>mean = 18, percentile = 90, interpretation_label = ''below_average''\<rparr> \<and>
   getBenchmarkComparison sample_store 18 post_surgery (- 1) = None"
proof -
  have sel: "select_benchmark sample_store post_surgery 24
     = \<lparr>data = Some (benchmark_row 24 18 7.8 13 18 24 225), error = None\<rparr>"
    by (simp add: select_benchmark_def sample_store_def sample_benchmarks_def
        benchmark_row_def order_weeks_descending_def maybeSingle_def)
  show ?thesis
    using sel
      getBenchmarkComparison_buckets
        [of sample_store post_surgery 24 "benchmark_row 24 18 7.8 13 18 24 225" 18]
      getBenchmarkComparison_buckets
        [of sample_store post_surgery 24 "benchmark_row 24 18 7.8 13 18 24 225" 30]
      getBenchmarkComparison_buckets [of sample_store post_surgery "- 1" _ 18]
    by (simp add: sample_store_def sample_benchmarks_def benchmark_row_def)
qed

end
